theory Spec2Isabelle
  imports Main "HOL-Library.Log_Nat"
begin

section \<open>JavaScript numbers\<close>

text \<open>
  Every number of the program is an IEEE-754 double. A finite double is held by its exact
  rational value; the two infinities and NaN are separate values. The two zeros are
  identified (no operation of the program divides by a negative zero). Each arithmetic
  operation computes the exact result and rounds it to the nearest double, ties to even,
  as the standard demands.
\<close>

datatype number = Fin rat | PosInf | NegInf | NaN

definition pow2 :: "int \<Rightarrow> rat" where
  "pow2 e = (if 0 \<le> e then 2 ^ nat e else 1 / 2 ^ nat (- e))"

text \<open>Round to the nearest integer, ties to the even one.\<close>

definition rne :: "rat \<Rightarrow> int" where
  "rne x = (let f = \<lfloor>x\<rfloor>; d = x - of_int f in
     if d < 1 / 2 then f else if 1 / 2 < d then f + 1 else if even f then f else f + 1)"

text \<open>The binary exponent \<open>\<lfloor>log\<^sub>2 x\<rfloor>\<close> of a positive rational.\<close>

definition floor_log2 :: "rat \<Rightarrow> int" where
  "floor_log2 x = (case quotient_of x of (p, q) \<Rightarrow>
     let d = bitlen p - bitlen q in if pow2 d \<le> x then d else d - 1)"

text \<open>
  Rounding to a double: 53 significant bits, the grid no finer than \<open>2\<^sup>-\<^sup>1\<^sup>0\<^sup>7\<^sup>4\<close>
  (subnormals), overflow to an infinity from \<open>2\<^sup>1\<^sup>0\<^sup>2\<^sup>4\<close> on.
\<close>

definition round_double :: "rat \<Rightarrow> number" where
  "round_double x = (if x = 0 then Fin 0 else
     let e = max (floor_log2 \<bar>x\<bar> - 52) (- 1074);
         r = of_int (rne (x / pow2 e)) * pow2 e
     in if pow2 1024 \<le> \<bar>r\<bar> then (if 0 < x then PosInf else NegInf) else Fin r)"

text \<open>A decimal literal of the source denotes the double nearest to it.\<close>

definition js_lit :: "rat \<Rightarrow> number" where
  "js_lit x = round_double x"

fun js_add :: "number \<Rightarrow> number \<Rightarrow> number" where
  "js_add (Fin a) (Fin b) = round_double (a + b)"
| "js_add NaN _ = NaN"
| "js_add _ NaN = NaN"
| "js_add PosInf NegInf = NaN"
| "js_add NegInf PosInf = NaN"
| "js_add PosInf _ = PosInf"
| "js_add NegInf _ = NegInf"
| "js_add (Fin a) PosInf = PosInf"
| "js_add (Fin a) NegInf = NegInf"

fun js_neg :: "number \<Rightarrow> number" where
  "js_neg (Fin a) = Fin (- a)"
| "js_neg PosInf = NegInf"
| "js_neg NegInf = PosInf"
| "js_neg NaN = NaN"

definition js_sub :: "number \<Rightarrow> number \<Rightarrow> number" where
  "js_sub a b = js_add a (js_neg b)"

text \<open>The sign of a number that is not NaN: \<open>1\<close>, \<open>0\<close> or \<open>-1\<close>.\<close>

fun js_sign :: "number \<Rightarrow> int" where
  "js_sign (Fin a) = (if 0 < a then 1 else if a < 0 then - 1 else 0)"
| "js_sign PosInf = 1"
| "js_sign NegInf = - 1"
| "js_sign NaN = 0"

definition inf_of_sign :: "int \<Rightarrow> number" where
  "inf_of_sign s = (if 0 < s then PosInf else if s < 0 then NegInf else NaN)"

fun js_mul :: "number \<Rightarrow> number \<Rightarrow> number" where
  "js_mul (Fin a) (Fin b) = round_double (a * b)"
| "js_mul NaN _ = NaN"
| "js_mul _ NaN = NaN"
| "js_mul a b = inf_of_sign (js_sign a * js_sign b)"

fun js_div :: "number \<Rightarrow> number \<Rightarrow> number" where
  "js_div (Fin a) (Fin b) =
     (if b = 0 then inf_of_sign (js_sign (Fin a)) else round_double (a / b))"
| "js_div NaN _ = NaN"
| "js_div _ NaN = NaN"
| "js_div (Fin a) _ = Fin 0"
| "js_div PosInf (Fin b) = (if 0 \<le> b then PosInf else NegInf)"
| "js_div NegInf (Fin b) = (if 0 \<le> b then NegInf else PosInf)"
| "js_div _ _ = NaN"

text \<open>The comparison \<open>a > b\<close>: false as soon as one side is NaN.\<close>

fun js_gt :: "number \<Rightarrow> number \<Rightarrow> bool" where
  "js_gt (Fin a) (Fin b) = (b < a)"
| "js_gt NaN _ = False"
| "js_gt _ NaN = False"
| "js_gt PosInf b = (b \<noteq> PosInf)"
| "js_gt a NegInf = (a \<noteq> NegInf)"
| "js_gt _ _ = False"

text \<open>\<open>Math.max\<close> of two arguments: NaN as soon as one of them is NaN.\<close>

definition js_max :: "number \<Rightarrow> number \<Rightarrow> number" where
  "js_max a b = (if a = NaN \<or> b = NaN then NaN else if js_gt b a then b else a)"


section \<open>Strings\<close>

text \<open>
  A string is held by the bytes of its UTF-8 encoding. \<open>trim\<close> removes from both ends the
  white space and the line terminators of the language: the code points U+0009 to
  U+000D, U+0020, U+00A0, U+1680, U+2000 to U+200A, U+2028, U+2029, U+202F, U+205F,
  U+3000 and U+FEFF, listed here by their encodings.
\<close>

definition space_codes :: "string list" where
  "space_codes =
    [[CHR 0x09], [CHR 0x0A], [CHR 0x0B], [CHR 0x0C], [CHR 0x0D], [CHR 0x20],
     [CHR 0xC2, CHR 0xA0], [CHR 0xE1, CHR 0x9A, CHR 0x80], [CHR 0xE2, CHR 0x80, CHR 0x80],
     [CHR 0xE2, CHR 0x80, CHR 0x81], [CHR 0xE2, CHR 0x80, CHR 0x82],
     [CHR 0xE2, CHR 0x80, CHR 0x83], [CHR 0xE2, CHR 0x80, CHR 0x84],
     [CHR 0xE2, CHR 0x80, CHR 0x85], [CHR 0xE2, CHR 0x80, CHR 0x86],
     [CHR 0xE2, CHR 0x80, CHR 0x87], [CHR 0xE2, CHR 0x80, CHR 0x88],
     [CHR 0xE2, CHR 0x80, CHR 0x89], [CHR 0xE2, CHR 0x80, CHR 0x8A],
     [CHR 0xE2, CHR 0x80, CHR 0xA8], [CHR 0xE2, CHR 0x80, CHR 0xA9],
     [CHR 0xE2, CHR 0x80, CHR 0xAF], [CHR 0xE2, CHR 0x81, CHR 0x9F],
     [CHR 0xE3, CHR 0x80, CHR 0x80], [CHR 0xEF, CHR 0xBB, CHR 0xBF]]"

text \<open>Remove from the front of a string every leading occurrence of one of the codes.\<close>

function strip_leading :: "string list \<Rightarrow> string \<Rightarrow> string" where
  "strip_leading codes [] = []"
| "strip_leading codes (c # s) =
     (case find (\<lambda>w. w \<noteq> [] \<and> take (length w) (c # s) = w) codes of
        None \<Rightarrow> c # s
      | Some w \<Rightarrow> strip_leading codes (drop (length w) (c # s)))"
  by pat_completeness auto
termination
  by (relation "measure (\<lambda>(codes, s). length s)") (auto simp: find_Some_iff)

declare strip_leading.simps [simp del]

definition trim :: "string \<Rightarrow> string" where
  "trim s = rev (strip_leading (map rev space_codes) (rev (strip_leading space_codes s)))"

section \<open>Values shared by the components\<close>

text \<open>
  What a \<open>catch\<close> clause receives: an \<open>Error\<close> object with its message, or any other
  value (the \<open>Event\<close> of a failed image load, for instance).
\<close>

datatype js_throwable = Error string | NonError

datatype mime = ImagePng | ImageJpeg

record blob =
  blob_size :: nat
  blob_type :: mime

record image =
  src :: string
  naturalWidth :: number
  naturalHeight :: number
  img_width :: number
  img_height :: number

datatype smoothing = Low | Medium | High

text \<open>
  The calls that paint on a 2D context, recorded in the order in which they are made: the
  two forms of \<open>drawImage\<close> the program uses, and the vignette's \<open>fillRect\<close> over the whole
  canvas, held by the vignette amount (the radii and the opacity of its radial gradient
  are functions of the canvas size and of this amount).
\<close>

datatype draw_op =
  DrawImageAt image number number
| DrawImageRegion image number number number number number number number number
| FillVignette number

record canvas =
  canvas_width :: nat
  canvas_height :: nat
  transform :: "number \<times> number \<times> number \<times> number \<times> number \<times> number"
  ctx_filter :: string
  imageSmoothingQuality :: smoothing
  ops :: "draw_op list"

text \<open>\<open>document.createElement('canvas')\<close>: 300 by 150, identity transform, nothing drawn.\<close>

definition createCanvas :: canvas where
  "createCanvas = \<lparr>canvas_width = 300, canvas_height = 150,
     transform = (Fin 1, Fin 0, Fin 0, Fin 1, Fin 0, Fin 0), ctx_filter = ''none'',
     imageSmoothingQuality = Low, ops = []\<rparr>"

text \<open>
  The attributes \<open>width\<close> and \<open>height\<close> of a canvas are of the type \<open>unsigned long\<close>. A
  number assigned to one is converted first: NaN and the infinities to 0, any other number
  truncated towards zero and taken modulo \<open>2\<^sup>3\<^sup>2\<close>. The attribute then takes the value
  if it is at most \<open>2\<^sup>3\<^sup>1 - 1\<close>, and its default otherwise.
\<close>

definition to_unsigned_long :: "number \<Rightarrow> nat" where
  "to_unsigned_long v =
     (case v of Fin x \<Rightarrow> nat ((if 0 \<le> x then \<lfloor>x\<rfloor> else \<lceil>x\<rceil>) mod 2 ^ 32) | _ \<Rightarrow> 0)"

definition dimension :: "nat \<Rightarrow> number \<Rightarrow> nat" where
  "dimension d v = (let n = to_unsigned_long v in if n \<le> 2147483647 then n else d)"

text \<open>Assigning a dimension clears the bitmap and resets the state of the context.\<close>

definition set_width :: "number \<Rightarrow> canvas \<Rightarrow> canvas" where
  "set_width w c =
     createCanvas\<lparr>canvas_width := dimension 300 w, canvas_height := canvas_height c\<rparr>"

definition set_height :: "number \<Rightarrow> canvas \<Rightarrow> canvas" where
  "set_height h c =
     createCanvas\<lparr>canvas_width := canvas_width c, canvas_height := dimension 150 h\<rparr>"

text \<open>\<open>setTransform\<close> returns without effect when an argument is NaN or infinite.\<close>

definition is_finite :: "number \<Rightarrow> bool" where
  "is_finite v = (case v of Fin x \<Rightarrow> True | _ \<Rightarrow> False)"

definition setTransform ::
  "number \<Rightarrow> number \<Rightarrow> number \<Rightarrow> number \<Rightarrow> number \<Rightarrow> number \<Rightarrow> canvas \<Rightarrow> canvas" where
  "setTransform a b c d e f cv =
     (if is_finite a \<and> is_finite b \<and> is_finite c \<and> is_finite d \<and> is_finite e \<and> is_finite f
      then cv\<lparr>transform := (a, b, c, d, e, f)\<rparr>
      else cv)"

text \<open>A drawing call is recorded as it is made, whatever its arguments.\<close>

definition draw :: "draw_op \<Rightarrow> canvas \<Rightarrow> canvas" where
  "draw d c = c\<lparr>ops := ops c @ [d]\<rparr>"

section \<open>DownloadModal\<close>

datatype image_format = PNG | JPEG

datatype size_unit = KB | MB

record target_size =
  isEnabled :: bool
  size_value :: number
  size_unit :: size_unit

record download_modal =
  format :: image_format
  customFilename :: string
  isProcessing :: bool
  downloadError :: "string option"
  jpegQuality :: number
  targetSize :: target_size

text \<open>
  The browser's \<open>canvas.toBlob\<close> is a parameter: for a canvas, a MIME type and an optional
  quality it yields a blob, or \<open>null\<close> (here \<open>None\<close>).
\<close>

type_synonym encoder = "canvas \<Rightarrow> mime \<Rightarrow> number option \<Rightarrow> blob option"

type_synonym blob_call = "mime \<times> number option"

definition getBlob :: "encoder \<Rightarrow> canvas \<Rightarrow> mime \<Rightarrow> number option \<Rightarrow> js_throwable + blob" where
  "getBlob toBlob canvas mimeType quality =
     (case toBlob canvas mimeType quality of
        Some blob \<Rightarrow> Inr blob
      | None \<Rightarrow> Inl (Error
          ''Canvas to Blob conversion failed. The image may be tainted by cross-origin data.''))"

text \<open>
  The \<open>while\<close> loop of \<open>handleDownload\<close>. Its state is the variable \<open>quality\<close> and the
  current blob; the calls of \<open>toBlob\<close> are recorded in order. A run that never leaves
  the loop is the value \<open>None\<close>.
\<close>

partial_function (option) reduce_quality ::
  "encoder \<Rightarrow> canvas \<Rightarrow> number \<Rightarrow> number \<Rightarrow> blob \<Rightarrow> blob_call list
     \<Rightarrow> ((js_throwable + blob) \<times> blob_call list) option" where
  "reduce_quality toBlob canvas targetBytes quality blob calls =
     (if js_gt (Fin (of_nat (blob_size blob))) targetBytes \<and> js_gt quality (js_lit (1 / 10)) then
        (let quality' = js_sub quality (js_lit (5 / 100));
             arg = js_max (js_lit (1 / 10)) quality';
             calls' = calls @ [(ImageJpeg, Some arg)]
         in case getBlob toBlob canvas ImageJpeg (Some arg) of
              Inl e \<Rightarrow> Some (Inl e, calls')
            | Inr blob' \<Rightarrow> reduce_quality toBlob canvas targetBytes quality' blob' calls')
      else Some (Inr blob, calls))"

definition targetBytes :: "target_size \<Rightarrow> number" where
  "targetBytes ts = js_mul (size_value ts)
     (if size_unit ts = KB then js_lit 1024 else js_mul (js_lit 1024) (js_lit 1024))"

text \<open>The body of the \<open>try\<close> block up to the blob: the result and the \<open>toBlob\<close> calls made.\<close>

definition make_blob ::
  "encoder \<Rightarrow> canvas \<Rightarrow> download_modal \<Rightarrow> ((js_throwable + blob) \<times> blob_call list) option" where
  "make_blob toBlob canvas st =
     (if format st = PNG then
        Some (getBlob toBlob canvas ImagePng None, [(ImagePng, None)])
      else if isEnabled (targetSize st) then
        (let targetBytes = targetBytes (targetSize st);
             quality = js_lit (95 / 100)
         in case getBlob toBlob canvas ImageJpeg (Some quality) of
              Inl e \<Rightarrow> Some (Inl e, [(ImageJpeg, Some quality)])
            | Inr blob \<Rightarrow>
                reduce_quality toBlob canvas targetBytes quality blob [(ImageJpeg, Some quality)])
      else
        (let q = js_div (jpegQuality st) (js_lit 100)
         in Some (getBlob toBlob canvas ImageJpeg (Some q), [(ImageJpeg, Some q)])))"

text \<open>
  What a run of \<open>handleDownload\<close> leaves behind: the component's state, the calls of
  \<open>getCanvasPromise\<close> and of \<open>toBlob\<close>, the downloads triggered (file name and blob of
  each click on the temporary link) and whether \<open>onClose\<close> was called.
\<close>

record download_run =
  final :: download_modal
  canvasCalls :: nat
  toBlobCalls :: "blob_call list"
  downloads :: "(string \<times> blob) list"
  closed :: bool

definition lower_format :: "image_format \<Rightarrow> string" where
  "lower_format f = (case f of PNG \<Rightarrow> ''png'' | JPEG \<Rightarrow> ''jpeg'')"

definition error_message :: "js_throwable \<Rightarrow> string" where
  "error_message e =
     (case e of Error m \<Rightarrow> m | NonError \<Rightarrow> ''An unknown error occurred during processing.'')"

definition handleDownload ::
  "encoder \<Rightarrow> (unit \<Rightarrow> js_throwable + canvas) \<Rightarrow> download_modal \<Rightarrow> download_run option" where
  "handleDownload toBlob getCanvasPromise st0 =
     (let st = st0\<lparr>isProcessing := True, downloadError := None\<rparr>;
          failed = (\<lambda>e calls. \<lparr>final = st\<lparr>downloadError := Some (error_message e),
                       isProcessing := False\<rparr>,
                     canvasCalls = 1, toBlobCalls = calls, downloads = [], closed = False\<rparr>)
      in case getCanvasPromise () of
           Inl e \<Rightarrow> Some (failed e [])
         | Inr canvas \<Rightarrow>
             (let finalFilename = trim (customFilename st) @ ''.'' @ lower_format (format st)
              in case make_blob toBlob canvas st of
                   None \<Rightarrow> None
                 | Some (Inl e, calls) \<Rightarrow> Some (failed e calls)
                 | Some (Inr blob, calls) \<Rightarrow>
                     Some \<lparr>final = st\<lparr>isProcessing := False\<rparr>, canvasCalls = 1,
                       toBlobCalls = calls, downloads = [(finalFilename, blob)],
                       closed = True\<rparr>))"

text \<open>
  The value of the variable \<open>quality\<close> after \<open>k\<close> passes through the loop, and the
  quality handed to \<open>toBlob\<close> by the \<open>k\<close>-th call (the call before the loop is call 0).
\<close>

definition quality_after :: "nat \<Rightarrow> number" where
  "quality_after k = ((\<lambda>q. js_sub q (js_lit (5 / 100))) ^^ k) (js_lit (95 / 100))"

definition quality_arg :: "nat \<Rightarrow> number" where
  "quality_arg k = (if k = 0 then quality_after 0 else js_max (js_lit (1 / 10)) (quality_after k))"

definition jpeg_call :: "nat \<Rightarrow> blob_call" where
  "jpeg_call k = (ImageJpeg, Some (quality_arg k))"

definition too_big :: "blob \<Rightarrow> number \<Rightarrow> bool" where
  "too_big b t = js_gt (Fin (of_nat (blob_size b))) t"

text \<open>A finite number of the closed interval from 0.1 to 0.95.\<close>

definition in_quality_range :: "number \<Rightarrow> bool" where
  "in_quality_range q = (case q of Fin x \<Rightarrow> 1 / 10 \<le> x \<and> x \<le> 95 / 100 | _ \<Rightarrow> False)"

text \<open>
  For comparison, a binary search over an ascending list of qualities, as the words
  \<open>quality-binary-search\<close> describe one: encode at the middle quality, go on in the upper
  half when the blob fits and in the lower half when it does not. The result is the list
  of qualities encoded, in order.
\<close>

function binary_search_probes :: "(number \<Rightarrow> bool) \<Rightarrow> number list \<Rightarrow> number list" where
  "binary_search_probes fits [] = []"
| "binary_search_probes fits (x # xs) =
     (let qs = x # xs; m = length qs div 2; q = qs ! m
      in q # (if fits q then binary_search_probes fits (drop (Suc m) qs)
              else binary_search_probes fits (take m qs)))"
  by pat_completeness auto
termination
  by (relation "measure (\<lambda>(fits, qs). length qs)") auto

text \<open>A quality fits when the canvas encoded at it is not larger than the target.\<close>

definition fits_target :: "encoder \<Rightarrow> canvas \<Rightarrow> number \<Rightarrow> number \<Rightarrow> bool" where
  "fits_target enc cv t q =
     (case enc cv ImageJpeg (Some q) of None \<Rightarrow> False | Some b \<Rightarrow> \<not> too_big b t)"

text \<open>
  Concrete inputs for the examples: a modal set to JPEG with a target of 1 KB, a canvas
  promise that resolves, an encoder whose blobs always have 2000 bytes and one whose
  blobs always have 500 bytes.
\<close>

definition sample_modal :: download_modal where
  "sample_modal = \<lparr>format = JPEG, customFilename = ''photo'', isProcessing = False,
     downloadError = None, jpegQuality = Fin 92,
     targetSize = \<lparr>isEnabled = True, size_value = Fin 1, size_unit = KB\<rparr>\<rparr>"

definition sample_promise :: "unit \<Rightarrow> js_throwable + canvas" where
  "sample_promise u = Inr createCanvas"

definition never_fits :: encoder where
  "never_fits cv m q = Some \<lparr>blob_size = 2000, blob_type = m\<rparr>"

definition always_fits :: encoder where
  "always_fits cv m q = Some \<lparr>blob_size = 500, blob_type = m\<rparr>"

section \<open>ImageControlPanel\<close>

record filter_entry =
  filter_name :: string
  style :: "number \<Rightarrow> string"

text \<open>
  The expressions of the filter table: \<open>c * (i/100)\<close>, \<open>100 + c * (i/100)\<close> and
  \<open>100 - c * (i/100)\<close>.
\<close>

definition part :: "rat \<Rightarrow> number \<Rightarrow> number" where
  "part c i = js_mul (js_lit c) (js_div i (js_lit 100))"

definition up :: "rat \<Rightarrow> number \<Rightarrow> number" where
  "up c i = js_add (js_lit 100) (part c i)"

definition down :: "rat \<Rightarrow> number \<Rightarrow> number" where
  "down c i = js_sub (js_lit 100) (part c i)"

text \<open>
  The table \<open>filters\<close>. The conversion of a number to a string inside a template
  literal is the parameter \<open>str\<close>.
\<close>

definition filters :: "(number \<Rightarrow> string) \<Rightarrow> filter_entry list" where
  "filters str =
   [\<lparr>filter_name = ''None'', style = (\<lambda>i. [])\<rparr>,
    \<lparr>filter_name = ''Auto Enhance'', style = (\<lambda>i.
       ''brightness('' @ str (up 5 i) @ ''%) contrast('' @ str (up 15 i)
       @ ''%) saturate('' @ str (up 20 i) @ ''%)'')\<rparr>,
    \<lparr>filter_name = ''Grayscale'', style = (\<lambda>i. ''grayscale('' @ str i @ ''%)'')\<rparr>,
    \<lparr>filter_name = ''Sepia'', style = (\<lambda>i. ''sepia('' @ str i @ ''%)'')\<rparr>,
    \<lparr>filter_name = ''Invert'', style = (\<lambda>i. ''invert('' @ str i @ ''%)'')\<rparr>,
    \<lparr>filter_name = ''Noir'', style = (\<lambda>i.
       ''grayscale(100%) contrast('' @ str (up 25 i) @ ''%) brightness(''
       @ str (down 10 i) @ ''%)'')\<rparr>,
    \<lparr>filter_name = ''Vibrant'', style = (\<lambda>i. ''saturate('' @ str (up 50 i) @ ''%)'')\<rparr>,
    \<lparr>filter_name = ''Cool'', style = (\<lambda>i.
       ''hue-rotate(-'' @ str (part 15 i) @ ''deg) saturate('' @ str (up 25 i) @ ''%)'')\<rparr>,
    \<lparr>filter_name = ''Warm'', style = (\<lambda>i.
       ''sepia('' @ str (part 20 i) @ ''%) saturate('' @ str (up 25 i)
       @ ''%) brightness('' @ str (up 5 i) @ ''%)'')\<rparr>,
    \<lparr>filter_name = ''High Contrast'', style = (\<lambda>i. ''contrast('' @ str (up 100 i) @ ''%)'')\<rparr>,
    \<lparr>filter_name = ''Vintage'', style = (\<lambda>i.
       ''sepia('' @ str (part 80 i) @ ''%) contrast('' @ str (up 10 i)
       @ ''%) brightness('' @ str (down 5 i) @ ''%) saturate('' @ str (down 20 i) @ ''%)'')\<rparr>,
    \<lparr>filter_name = ''Cyberpunk'', style = (\<lambda>i.
       ''contrast('' @ str (up 40 i) @ ''%) hue-rotate('' @ str (part 180 i)
       @ ''deg) saturate('' @ str (up 60 i) @ ''%) brightness('' @ str (up 5 i) @ ''%)'')\<rparr>,
    \<lparr>filter_name = ''Pastel'', style = (\<lambda>i.
       ''saturate('' @ str (down 40 i) @ ''%) contrast('' @ str (down 25 i)
       @ ''%) brightness('' @ str (up 10 i) @ ''%)'')\<rparr>,
    \<lparr>filter_name = ''Dreamy'', style = (\<lambda>i.
       ''blur('' @ str (part 3 i) @ ''px) brightness('' @ str (up 15 i)
       @ ''%) contrast('' @ str (down 15 i) @ ''%) saturate('' @ str (up 10 i) @ ''%)'')\<rparr>,
    \<lparr>filter_name = ''Nashville'', style = (\<lambda>i.
       ''sepia('' @ str (part 20 i) @ ''%) contrast('' @ str (up 20 i)
       @ ''%) brightness('' @ str (up 5 i) @ ''%) saturate('' @ str (up 20 i) @ ''%)'')\<rparr>,
    \<lparr>filter_name = ''Lomo'', style = (\<lambda>i.
       ''saturate('' @ str (up 50 i) @ ''%) contrast('' @ str (up 50 i)
       @ ''%) sepia('' @ str (part 30 i) @ ''%)'')\<rparr>,
    \<lparr>filter_name = ''Gotham'', style = (\<lambda>i.
       ''contrast('' @ str (up 30 i) @ ''%) brightness('' @ str (down 10 i)
       @ ''%) sepia('' @ str (part 30 i) @ ''%)'')\<rparr>,
    \<lparr>filter_name = ''Pop Art'', style = (\<lambda>i.
       ''contrast('' @ str (up 100 i) @ ''%) saturate('' @ str (up 100 i)
       @ ''%) hue-rotate('' @ str (part 15 i) @ ''deg)'')\<rparr>,
    \<lparr>filter_name = ''Infrared'', style = (\<lambda>i.
       ''hue-rotate(-'' @ str (part 60 i) @ ''deg) saturate('' @ str (up 100 i)
       @ ''%) contrast('' @ str (up 50 i) @ ''%)'')\<rparr>,
    \<lparr>filter_name = ''Old West'', style = (\<lambda>i.
       ''sepia('' @ str (part 100 i) @ ''%) contrast('' @ str (down 10 i)
       @ ''%) brightness('' @ str (up 10 i) @ ''%) saturate('' @ str (down 20 i) @ ''%)'')\<rparr>,
    \<lparr>filter_name = ''Emerald City'', style = (\<lambda>i.
       ''hue-rotate('' @ str (part 90 i) @ ''deg) saturate('' @ str (up 50 i)
       @ ''%) contrast('' @ str (up 20 i) @ ''%)'')\<rparr>]"

record adjustments =
  brightness :: number
  contrast :: number
  saturation :: number
  warmth :: number
  tint :: number
  vignette :: number

definition initialAdjustments :: adjustments where
  "initialAdjustments = \<lparr>brightness = js_lit 100, contrast = js_lit 100,
     saturation = js_lit 100, warmth = js_lit 0, tint = js_lit 0, vignette = js_lit 0\<rparr>"

record active_filter =
  active_name :: string
  intensity :: number

record retouch_options =
  enhanceSkin :: bool
  brightenEyes :: bool
  whitenTeeth :: bool
  reduceDarkCircles :: bool

record control_panel =
  displayImage :: string
  adjustments :: adjustments
  activeFilter :: active_filter
  retouchOptions :: retouch_options
  isRetouching :: bool
  retouchError :: "string option"

text \<open>\<open>v || ''\<close> for a string that may be undefined.\<close>

definition or_empty :: "string option \<Rightarrow> string" where
  "or_empty v = (case v of None \<Rightarrow> [] | Some s \<Rightarrow> s)"

text \<open>The template literal \<open>adjustmentFilter\<close>, with its line breaks and indentation.\<close>

definition adjustmentFilter :: "(number \<Rightarrow> string) \<Rightarrow> adjustments \<Rightarrow> string" where
  "adjustmentFilter str a =
     [CHR 0x0A] @ ''      brightness('' @ str (brightness a) @ ''%) ''
     @ [CHR 0x0A] @ ''      contrast('' @ str (contrast a) @ ''%) ''
     @ [CHR 0x0A] @ ''      saturate('' @ str (saturation a) @ ''%) ''
     @ [CHR 0x0A] @ ''      sepia('' @ str (warmth a) @ ''%) ''
     @ [CHR 0x0A] @ ''      hue-rotate('' @ str (tint a) @ ''deg)''
     @ [CHR 0x0A] @ ''    ''"

text \<open>
  The five adjustment functions as they stand in the result of \<open>getCombinedStyle\<close>:
  \<open>adjustmentFilter\<close> without the white space at its two ends.
\<close>

definition fiveAdjustments :: "(number \<Rightarrow> string) \<Rightarrow> adjustments \<Rightarrow> string" where
  "fiveAdjustments str a =
     ''brightness('' @ str (brightness a) @ ''%) ''
     @ [CHR 0x0A] @ ''      contrast('' @ str (contrast a) @ ''%) ''
     @ [CHR 0x0A] @ ''      saturate('' @ str (saturation a) @ ''%) ''
     @ [CHR 0x0A] @ ''      sepia('' @ str (warmth a) @ ''%) ''
     @ [CHR 0x0A] @ ''      hue-rotate('' @ str (tint a) @ ''deg)''"

text \<open>\<open>getCombinedStyle\<close> returns an object with the one property \<open>filter\<close>: its value.\<close>

definition getCombinedStyle :: "(number \<Rightarrow> string) \<Rightarrow> control_panel \<Rightarrow> string" where
  "getCombinedStyle str p =
     (let filterFunc = or_empty (map_option (\<lambda>f. style f (intensity (activeFilter p)))
            (find (\<lambda>f. filter_name f = active_name (activeFilter p)) (filters str)))
      in trim (filterFunc @ '' '' @ adjustmentFilter str (adjustments p)))"

text \<open>
  The browser around the components: loading an image from a source yields the image or
  fails (the promise is then rejected with the error event), \<open>getContext('2d')\<close> yields
  a context or \<open>null\<close>, a canvas is encoded by \<open>toDataURL\<close> and \<open>toBlob\<close>, a number
  is converted to a string, and the window has a device pixel ratio.
\<close>

record browser =
  loadImage :: "string \<Rightarrow> image option"
  hasContext :: bool
  toDataURL :: "canvas \<Rightarrow> mime \<Rightarrow> string"
  toBlob :: encoder
  numberToString :: "number \<Rightarrow> string"
  devicePixelRatio :: number

definition renderImageWithEffectsToCanvas ::
  "browser \<Rightarrow> control_panel \<Rightarrow> string \<Rightarrow> js_throwable + canvas" where
  "renderImageWithEffectsToCanvas env p sourceImage =
     (case loadImage env sourceImage of
        None \<Rightarrow> Inl NonError
      | Some img \<Rightarrow>
          (let canvas = set_height (naturalHeight img) (set_width (naturalWidth img) createCanvas)
           in if \<not> hasContext env then Inl (Error ''Could not get canvas context'')
              else
                (let f = getCombinedStyle (numberToString env) p;
                     canvas = canvas\<lparr>ctx_filter := (if f = [] then ''none'' else f)\<rparr>;
                     canvas = draw (DrawImageAt img (js_lit 0) (js_lit 0)) canvas
                 in Inr (if js_gt (vignette (adjustments p)) (js_lit 0)
                         then draw (FillVignette (vignette (adjustments p))) canvas
                         else canvas))))"

text \<open>\<open>s.split(c)\<close> and \<open>xs.join(sep)\<close>; \<open>xs[1]\<close> is undefined on a shorter array.\<close>

fun split :: "char \<Rightarrow> string \<Rightarrow> string list" where
  "split c [] = [[]]"
| "split c (x # xs) =
     (if x = c then [] # split c xs
      else (case split c xs of [] \<Rightarrow> [[x]] | y # ys \<Rightarrow> (x # y) # ys))"

fun join :: "string \<Rightarrow> string list \<Rightarrow> string" where
  "join sep [] = []"
| "join sep [x] = x"
| "join sep (x # y # ys) = x @ sep @ join sep (y # ys)"

definition second :: "'a list \<Rightarrow> 'a option" where
  "second xs = (case xs of _ # y # _ \<Rightarrow> Some y | _ \<Rightarrow> None)"

text \<open>
  The functions of \<open>services/geminiService\<close> are parameters: each call yields the base64
  data of an image or throws. The calls made are recorded.
\<close>

datatype aspect_ratio = Ratio_1_1 | Ratio_4_3 | Ratio_3_4 | Ratio_16_9 | Ratio_9_16

datatype service_call =
  EditCall "string option" string string
| GenerateCall string aspect_ratio
| UpscaleCall string

type_synonym edit_service = "string option \<Rightarrow> string \<Rightarrow> string \<Rightarrow> js_throwable + string"

definition unknown_or_message :: "js_throwable \<Rightarrow> string" where
  "unknown_or_message e = (case e of Error m \<Rightarrow> m | NonError \<Rightarrow> ''An unknown error occurred.'')"

definition handleApplyRetouch ::
  "browser \<Rightarrow> edit_service \<Rightarrow> control_panel \<Rightarrow> control_panel \<times> service_call list" where
  "handleApplyRetouch env editImageWithGemini p0 =
     (let r = retouchOptions p0;
          selectedOptions = map fst (filter snd
            [(''enhanceSkin'', enhanceSkin r), (''brightenEyes'', brightenEyes r),
             (''whitenTeeth'', whitenTeeth r), (''reduceDarkCircles'', reduceDarkCircles r)])
      in if length selectedOptions = 0 then
           (p0\<lparr>retouchError := Some ''Please select at least one retouch option.''\<rparr>, [])
         else
           (let p = p0\<lparr>retouchError := None, isRetouching := True\<rparr>;
                failed = (\<lambda>e. p\<lparr>retouchError := Some (''Retouch failed: '' @ unknown_or_message e),
                                 isRetouching := False\<rparr>)
            in case renderImageWithEffectsToCanvas env p (displayImage p) of
                 Inl e \<Rightarrow> (failed e, [])
               | Inr canvas \<Rightarrow>
                   (let currentImageBase64 = toDataURL env canvas ImagePng;
                        base64Data = second (split CHR '','' currentImageBase64);
                        promptCommands =
                          (if enhanceSkin r
                           then [''perform skin enhancement to smooth texture and reduce blemishes'']
                           else [])
                          @ (if brightenEyes r then [''brighten the eyes''] else [])
                          @ (if whitenTeeth r then [''whiten the teeth''] else [])
                          @ (if reduceDarkCircles r
                             then [''reduce dark circles under the eyes''] else []);
                        prompt = ''Subtly retouch this portrait. Please ''
                          @ join '', '' promptCommands @ ''. Maintain a natural look.'';
                        calls = [EditCall base64Data ''image/png'' prompt]
                    in case editImageWithGemini base64Data ''image/png'' prompt of
                         Inl e \<Rightarrow> (failed e, calls)
                       | Inr resultBase64 \<Rightarrow>
                           (p\<lparr>displayImage := ''data:image/png;base64,'' @ resultBase64,
                              isRetouching := False\<rparr>, calls))))"


text \<open>The download modal is opened with \<open>renderImageWithEffectsToCanvas(displayImage)\<close>.\<close>

definition panel_download :: "browser \<Rightarrow> control_panel \<Rightarrow> download_modal \<Rightarrow> download_run option" where
  "panel_download env p st =
     handleDownload (toBlob env)
       (\<lambda>_. renderImageWithEffectsToCanvas env p (displayImage p)) st"

text \<open>The modal shows \<open>downloadError\<close> when it is truthy: neither \<open>null\<close> nor empty.\<close>

definition error_shown :: "download_modal \<Rightarrow> bool" where
  "error_shown st = (case downloadError st of None \<Rightarrow> False | Some m \<Rightarrow> m \<noteq> [])"

section \<open>The crop helpers of ImageEditor and CropModal\<close>

record pixel_crop =
  crop_x :: number
  crop_y :: number
  crop_width :: number
  crop_height :: number

text \<open>
  Each \<open>getCroppedImg\<close> builds a canvas and returns a promise of its PNG data URL; the
  first function of each pair is the canvas handed to \<open>toDataURL\<close>.
\<close>

definition croppedCanvas_ImageEditor :: "browser \<Rightarrow> image \<Rightarrow> pixel_crop \<Rightarrow> js_throwable + canvas" where
  "croppedCanvas_ImageEditor env img crop =
     (let canvas = set_height (crop_height crop) (set_width (crop_width crop) createCanvas)
      in if \<not> hasContext env then Inl (Error ''Canvas context is not available.'')
         else
           (let scaleX = js_div (naturalWidth img) (img_width img);
                scaleY = js_div (naturalHeight img) (img_height img)
            in Inr (draw (DrawImageRegion img
                 (js_mul (crop_x crop) scaleX) (js_mul (crop_y crop) scaleY)
                 (js_mul (crop_width crop) scaleX) (js_mul (crop_height crop) scaleY)
                 (js_lit 0) (js_lit 0) (crop_width crop) (crop_height crop)) canvas)))"

definition getCroppedImg_ImageEditor :: "browser \<Rightarrow> image \<Rightarrow> pixel_crop \<Rightarrow> js_throwable + string" where
  "getCroppedImg_ImageEditor env img crop =
     (case croppedCanvas_ImageEditor env img crop of
        Inl e \<Rightarrow> Inl e
      | Inr canvas \<Rightarrow> Inr (toDataURL env canvas ImagePng))"

definition croppedCanvas_CropModal :: "browser \<Rightarrow> image \<Rightarrow> pixel_crop \<Rightarrow> js_throwable + canvas" where
  "croppedCanvas_CropModal env img crop =
     (let scaleX = js_div (naturalWidth img) (img_width img);
          scaleY = js_div (naturalHeight img) (img_height img);
          canvas = set_height (crop_height crop) (set_width (crop_width crop) createCanvas)
      in if \<not> hasContext env then Inl (Error ''Canvas context is not available.'')
         else
           (let pixelRatio = devicePixelRatio env;
                canvas = set_width (js_mul (crop_width crop) pixelRatio) canvas;
                canvas = set_height (js_mul (crop_height crop) pixelRatio) canvas;
                canvas = setTransform pixelRatio (js_lit 0) (js_lit 0) pixelRatio
                  (js_lit 0) (js_lit 0) canvas;
                canvas = canvas\<lparr>imageSmoothingQuality := High\<rparr>
            in Inr (draw (DrawImageRegion img
                 (js_mul (crop_x crop) scaleX) (js_mul (crop_y crop) scaleY)
                 (js_mul (crop_width crop) scaleX) (js_mul (crop_height crop) scaleY)
                 (js_lit 0) (js_lit 0) (crop_width crop) (crop_height crop)) canvas)))"

definition getCroppedImg_CropModal :: "browser \<Rightarrow> image \<Rightarrow> pixel_crop \<Rightarrow> js_throwable + string" where
  "getCroppedImg_CropModal env img crop =
     (case croppedCanvas_CropModal env img crop of
        Inl e \<Rightarrow> Inl e
      | Inr canvas \<Rightarrow> Inr (toDataURL env canvas ImagePng))"

section \<open>ImageGenerator\<close>

record generator =
  gen_prompt :: string
  aspectRatio :: aspect_ratio
  gen_isLoading :: bool
  isUpscaling :: bool
  gen_error :: "string option"
  generatedImage :: "string option"

definition handleGenerate ::
  "(string \<Rightarrow> aspect_ratio \<Rightarrow> js_throwable + string) \<Rightarrow> generator \<Rightarrow> generator \<times> service_call list" where
  "handleGenerate generateImageWithGemini g0 =
     (if trim (gen_prompt g0) = [] then
        (g0\<lparr>gen_error := Some ''Please enter a prompt to generate an image.''\<rparr>, [])
      else
        (let g = g0\<lparr>gen_isLoading := True, gen_error := None, generatedImage := None\<rparr>;
             calls = [GenerateCall (gen_prompt g) (aspectRatio g)]
         in case generateImageWithGemini (gen_prompt g) (aspectRatio g) of
              Inr resultBase64 \<Rightarrow>
                (g\<lparr>generatedImage := Some resultBase64, gen_isLoading := False\<rparr>, calls)
            | Inl e \<Rightarrow>
                (g\<lparr>gen_error := Some (''Generation failed: '' @ unknown_or_message e),
                   gen_isLoading := False\<rparr>, calls)))"

definition handleUpscale ::
  "(string \<Rightarrow> js_throwable + string) \<Rightarrow> generator \<Rightarrow> generator \<times> service_call list" where
  "handleUpscale upscaleImageWithGemini g0 =
     (case generatedImage g0 of
        None \<Rightarrow> (g0, [])
      | Some img \<Rightarrow>
          if img = [] then (g0, [])
          else
            (let g = g0\<lparr>isUpscaling := True, gen_error := None\<rparr>;
                 calls = [UpscaleCall img]
             in case upscaleImageWithGemini img of
                  Inr upscaledImageBase64 \<Rightarrow>
                    (g\<lparr>generatedImage := Some upscaledImageBase64, isUpscaling := False\<rparr>, calls)
                | Inl e \<Rightarrow>
                    (g\<lparr>gen_error := Some (''Upscaling failed: '' @ unknown_or_message e),
                       isUpscaling := False\<rparr>, calls)))"

section \<open>App\<close>

datatype EditingStep = Upload | Choice | AiEdit | Studio | Generation

record js_file =
  file_name :: string
  file_type :: string

record image_data =
  base64 :: string
  mimeType :: string

record image_file = image_data +
  the_file :: js_file

record app =
  editingStep :: EditingStep
  originalImage :: "image_file option"
  editedImage :: "string option"
  prompt :: string
  isLoading :: bool
  error :: "string option"

definition initialApp :: app where
  "initialApp = \<lparr>editingStep = Upload, originalImage = None, editedImage = None,
     prompt = [], isLoading = False, error = None\<rparr>"

text \<open>\<open>fileToBase64\<close> wraps the browser's \<open>FileReader\<close>, a parameter here.\<close>

definition handleImageUpload :: "(js_file \<Rightarrow> js_throwable + string) \<Rightarrow> js_file \<Rightarrow> app \<Rightarrow> app" where
  "handleImageUpload fileToBase64 f a0 =
     (let a = a0\<lparr>error := None, isLoading := True\<rparr>
      in case fileToBase64 f of
           Inr b \<Rightarrow>
             a\<lparr>originalImage := Some \<lparr>base64 = b, mimeType = file_type f, the_file = f\<rparr>,
               editedImage := None, prompt := [], editingStep := Choice, isLoading := False\<rparr>
         | Inl e \<Rightarrow>
             a\<lparr>error := Some ''Failed to process image file. Please try another one.'',
               isLoading := False\<rparr>)"

definition handleSubmitEdit :: "edit_service \<Rightarrow> image_data \<Rightarrow> app \<Rightarrow> app \<times> service_call list" where
  "handleSubmitEdit editImageWithGemini imageData a0 =
     (if trim (prompt a0) = [] then
        (a0\<lparr>error := Some ''Please ensure you have a prompt written.''\<rparr>, [])
      else
        (let a = a0\<lparr>error := None, isLoading := True, editedImage := None\<rparr>;
             base64Data = second (split CHR '','' (base64 imageData));
             calls = [EditCall base64Data (mimeType imageData) (prompt a)]
         in case editImageWithGemini base64Data (mimeType imageData) (prompt a) of
              Inr resultBase64 \<Rightarrow>
                (a\<lparr>editedImage := Some (''data:image/png;base64,'' @ resultBase64),
                   editingStep := Studio, isLoading := False\<rparr>, calls)
            | Inl e \<Rightarrow>
                (a\<lparr>error := Some (''Editing failed: '' @ unknown_or_message e),
                   isLoading := False\<rparr>, calls)))"

text \<open>
  \<open>handleSubmit\<close> of ImageEditor, the handler of the button \<open>Apply AI Edit\<close>, with the
  props that \<open>renderContent\<close> gives it: \<open>isLoading\<close> is that of App and \<open>onSubmit\<close> is
  \<open>handleSubmitEdit\<close>. The image element of \<open>imgRef\<close> and the completed crop may be
  missing; an image element that is there holds the decoded image on which the crop was
  completed. A rejected \<open>getCroppedImg\<close> is caught and logged.
\<close>

definition handleSubmit ::
  "browser \<Rightarrow> edit_service \<Rightarrow> image option \<Rightarrow> pixel_crop option \<Rightarrow> app
     \<Rightarrow> app \<times> service_call list" where
  "handleSubmit env editImageWithGemini imgRef completedCrop a =
     (case (imgRef, completedCrop) of
        (Some img, Some crop) \<Rightarrow>
          if isLoading a \<or> crop_width crop = Fin 0 then (a, [])
          else (case getCroppedImg_ImageEditor env img crop of
                  Inl e \<Rightarrow> (a, [])
                | Inr croppedImageBase64 \<Rightarrow>
                    handleSubmitEdit editImageWithGemini
                      \<lparr>base64 = croppedImageBase64, mimeType = ''image/png''\<rparr> a)
      | _ \<Rightarrow> (a, []))"

definition handleImageGenerated :: "string \<Rightarrow> app \<Rightarrow> app" where
  "handleImageGenerated base64Data a =
     a\<lparr>originalImage := Some \<lparr>base64 = ''data:image/png;base64,'' @ base64Data,
           mimeType = ''image/png'',
           the_file = \<lparr>file_name = ''generated-image.png'', file_type = ''image/png''\<rparr>\<rparr>,
       editedImage := None, prompt := [], error := None, editingStep := Studio\<rparr>"

definition handleReset :: "app \<Rightarrow> app" where
  "handleReset a = a\<lparr>originalImage := None, editedImage := None, prompt := [],
     error := None, isLoading := False, editingStep := Upload\<rparr>"

text \<open>
  What \<open>renderContent\<close> returns: one of the components, or nothing where
  \<open>originalImage && \<dots>\<close> meets \<open>null\<close>. The five cases cover the type, so that the
  \<open>default\<close> branch of the switch is never taken.
\<close>

datatype view = ImageUploader | ImageGenerator | EditorChoice | ImageEditor | ResultDisplay | Nothing

definition renderContent :: "app \<Rightarrow> view" where
  "renderContent a =
     (case editingStep a of
        Upload \<Rightarrow> ImageUploader
      | Generation \<Rightarrow> ImageGenerator
      | Choice \<Rightarrow> (if originalImage a = None then Nothing else EditorChoice)
      | AiEdit \<Rightarrow> (if originalImage a = None then Nothing else ImageEditor)
      | Studio \<Rightarrow> (if originalImage a = None then Nothing else ResultDisplay))"

text \<open>
  The callbacks that \<open>renderContent\<close> hands to the component it renders, and the
  \<open>onClose\<close> of the error alert, which is rendered while \<open>error\<close> is truthy. An event
  carries what the browser or the service answers, and its handler runs to the end before
  the next event; an event that the rendered component does not offer leaves the state as
  it is.
\<close>

datatype event =
  UploadImage js_file "js_throwable + string"
| StartGeneration
| GeneratorBack
| ImageGenerated string
| ChooseAiEdit
| ChooseManualEdit
| EditorBack
| SetPrompt string
| SubmitEdit image_data "js_throwable + string"
| Reset
| CloseError

fun fire :: "view \<Rightarrow> event \<Rightarrow> app \<Rightarrow> app" where
  "fire v CloseError a =
     (if error a = None \<or> error a = Some [] then a else a\<lparr>error := None\<rparr>)"
| "fire ImageUploader (UploadImage f r) a = handleImageUpload (\<lambda>_. r) f a"
| "fire ImageUploader StartGeneration a = a\<lparr>editingStep := Generation\<rparr>"
| "fire ImageGenerator (ImageGenerated d) a = handleImageGenerated d a"
| "fire ImageGenerator GeneratorBack a = a\<lparr>editingStep := Upload\<rparr>"
| "fire EditorChoice ChooseAiEdit a = a\<lparr>editingStep := AiEdit\<rparr>"
| "fire EditorChoice ChooseManualEdit a = a\<lparr>editingStep := Studio\<rparr>"
| "fire EditorChoice Reset a = handleReset a"
| "fire ImageEditor (SetPrompt s) a = a\<lparr>prompt := s\<rparr>"
| "fire ImageEditor (SubmitEdit d r) a = fst (handleSubmitEdit (\<lambda>_ _ _. r) d a)"
| "fire ImageEditor Reset a = handleReset a"
| "fire ImageEditor EditorBack a = a\<lparr>editingStep := Choice\<rparr>"
| "fire ResultDisplay Reset a = handleReset a"
| "fire _ _ a = a"

definition step :: "event \<Rightarrow> app \<Rightarrow> app" where
  "step e a = fire (renderContent a) e a"

definition run :: "event list \<Rightarrow> app \<Rightarrow> app" where
  "run es a = foldl (\<lambda>s e. step e s) a es"

text \<open>The name of each step, as the source writes it.\<close>

definition step_name :: "EditingStep \<Rightarrow> string" where
  "step_name s = (case s of Upload \<Rightarrow> ''upload'' | Choice \<Rightarrow> ''choice''
     | AiEdit \<Rightarrow> ''ai-edit'' | Studio \<Rightarrow> ''studio'' | Generation \<Rightarrow> ''generation'')"


text \<open>
  The names of the steps in the description \<open>upload \<rightarrow> choice \<rightarrow> ai-edit/studio \<rightarrow> result\<close>.
\<close>

definition described_steps :: "string list" where
  "described_steps = [''upload'', ''choice'', ''ai-edit'', ''studio'', ''result'']"

section \<open>Sample inputs\<close>

text \<open>
  A browser for the examples: every image source loads as an image of 800 by 600 pixels
  shown at 400 by 300, a context is available, the device pixel ratio is 2, \<open>toBlob\<close>
  yields \<open>null\<close>, and the data URL of a canvas tells a width of 100 from the others.
\<close>

definition sample_image :: image where
  "sample_image = \<lparr>src = ''data:image/png;base64,AAAA'', naturalWidth = Fin 800,
     naturalHeight = Fin 600, img_width = Fin 400, img_height = Fin 300\<rparr>"

definition sample_load :: "string \<Rightarrow> image option" where
  "sample_load s = Some sample_image"

definition width_tag :: "canvas \<Rightarrow> mime \<Rightarrow> string" where
  "width_tag c m = (if canvas_width c = 100 then ''data:image/png;base64,W100''
     else ''data:image/png;base64,WXXX'')"

definition refusing :: encoder where
  "refusing cv m q = None"

definition sample_str :: "number \<Rightarrow> string" where
  "sample_str n = ''1''"

definition sample_browser :: browser where
  "sample_browser = \<lparr>loadImage = sample_load, hasContext = True, toDataURL = width_tag,
     toBlob = refusing, numberToString = sample_str, devicePixelRatio = Fin 2\<rparr>"

text \<open>
  A generator whose prompt is blank (a space and an ideographic space, U+3000), and a
  service that answers.
\<close>

definition blank_generator :: generator where
  "blank_generator = \<lparr>gen_prompt = [CHR 0x20, CHR 0xE3, CHR 0x80, CHR 0x80],
     aspectRatio = Ratio_1_1, gen_isLoading = False,
     isUpscaling = False, gen_error = None, generatedImage = Some ''AAAA''\<rparr>"

definition sample_generate :: "string \<Rightarrow> aspect_ratio \<Rightarrow> js_throwable + string" where
  "sample_generate p r = Inr ''BBBB''"

definition sample_file :: js_file where
  "sample_file = \<lparr>file_name = ''photo.png'', file_type = ''image/png''\<rparr>"

definition sample_crop :: pixel_crop where
  "sample_crop = \<lparr>crop_x = Fin 10, crop_y = Fin 20, crop_width = Fin 100, crop_height = Fin 50\<rparr>"

text \<open>An upload that is read, and an edit that the service answers.\<close>

definition sample_upload :: event where
  "sample_upload = UploadImage sample_file (Inr ''data:image/png;base64,AAAA'')"

definition sample_submit :: event where
  "sample_submit = SubmitEdit \<lparr>base64 = ''data:image/png;base64,AAAA'', mimeType = ''image/png''\<rparr>
     (Inr ''BBBB'')"

text \<open>A crop of 299.5 by 168.5 pixels.\<close>

definition fractional_crop :: pixel_crop where
  "fractional_crop = \<lparr>crop_x = Fin 0, crop_y = Fin 0, crop_width = Fin (599 / 2),
     crop_height = Fin (337 / 2)\<rparr>"

definition sample_panel :: control_panel where
  "sample_panel = \<lparr>displayImage = ''data:image/png;base64,AAAA'',
     adjustments = initialAdjustments,
     activeFilter = \<lparr>active_name = ''None'', intensity = Fin 100\<rparr>,
     retouchOptions = \<lparr>enhanceSkin = True, brightenEyes = False, whitenTeeth = False,
       reduceDarkCircles = False\<rparr>,
     isRetouching = False, retouchError = None\<rparr>"

section \<open>The combined CSS filter\<close>

lemma strip_leading_plain:
  assumes "c \<notin> set (concat codes)"
  shows "strip_leading codes (c # s) = c # s"
proof -
  have "find (\<lambda>w. w \<noteq> [] \<and> take (length w) (c # s) = w) codes = None"
    unfolding find_None_iff
  proof (intro notI, elim exE conjE)
    fix w
    assume w: "w \<in> set codes" "w \<noteq> []" "take (length w) (c # s) = w"
    from w(2) obtain x w' where xw: "w = x # w'" by (cases w) auto
    with w(3) have "x = c" by simp
    with xw w(1) assms show False by auto
  qed
  then show ?thesis by (simp add: strip_leading.simps)
qed

lemma strip_leading_single:
  assumes "[c] \<in> set codes" and "\<forall>w\<in>set codes. w \<noteq> [] \<and> hd w = c \<longrightarrow> w = [c]"
  shows "strip_leading codes (c # s) = strip_leading codes s"
proof (cases "find (\<lambda>w. w \<noteq> [] \<and> take (length w) (c # s) = w) codes")
  case None
  then have "\<not> ([c] \<noteq> [] \<and> take (length [c]) (c # s) = [c])"
    unfolding find_None_iff using assms(1) by blast
  then show ?thesis by simp
next
  case (Some w)
  then obtain i where i: "i < length codes" "w = codes ! i"
    and w: "w \<noteq> [] \<and> take (length w) (c # s) = w"
    unfolding find_Some_iff by blast
  from i have mem: "w \<in> set codes" by simp
  from w have "hd w = c" by (cases w) auto
  with w mem assms(2) have "w = [c]" by blast
  with Some show ?thesis by (simp add: strip_leading.simps)
qed

lemma strip_blank:
  assumes "c = CHR 0x20 \<or> c = CHR 0x0A"
  shows "strip_leading space_codes (c # s) = strip_leading space_codes s"
    and "strip_leading (map rev space_codes) (c # s) = strip_leading (map rev space_codes) s"
  using assms by (auto intro!: strip_leading_single simp: space_codes_def)

lemma strip_blanks:
  assumes "\<forall>x\<in>set a. x = CHR 0x20 \<or> x = CHR 0x0A"
  shows "strip_leading space_codes (a @ s) = strip_leading space_codes s"
    and "strip_leading (map rev space_codes) (a @ s) = strip_leading (map rev space_codes) s"
  using assms by (induction a) (simp_all add: strip_blank)

lemma trim_strip:
  assumes "\<forall>x\<in>set a. x = CHR 0x20 \<or> x = CHR 0x0A" and "\<forall>x\<in>set c. x = CHR 0x20 \<or> x = CHR 0x0A"
    and "b \<noteq> []" and "hd b \<notin> set (concat space_codes)"
    and "last b \<notin> set (concat space_codes)"
  shows "trim (a @ b @ c) = b"
proof -
  obtain x b' where b: "b = x # b'" using assms(3) by (cases b) auto
  have 1: "strip_leading space_codes (a @ b @ c) = b @ c"
    using assms(1,4) by (simp add: strip_blanks b strip_leading_plain)
  obtain y r where r: "rev b = y # r" using assms(3) by (cases "rev b") auto
  then have "y = last b" using assms(3) by (metis hd_rev list.sel(1))
  with assms(5) have "y \<notin> set (concat (map rev space_codes))" by simp
  then have 2: "strip_leading (map rev space_codes) (rev c @ rev b) = rev b"
    using assms(2) by (simp add: strip_blanks r strip_leading_plain)
  show ?thesis by (simp add: trim_def 1 2)
qed

lemma trim_plain:
  assumes "b \<noteq> []" and "hd b \<notin> set (concat space_codes)"
    and "last b \<notin> set (concat space_codes)"
  shows "trim b = b"
  using trim_strip[of "[]" "[]" b] assms by simp

lemma trim_photo: "trim ''photo'' = ''photo''"
  by (rule trim_plain) (simp_all add: space_codes_def)

lemma trim_hat: "trim ''add a hat'' = ''add a hat''"
  by (rule trim_plain) (simp_all add: space_codes_def)

lemma fiveAdjustments_ends:
  "fiveAdjustments str a \<noteq> []" "hd (fiveAdjustments str a) \<notin> set (concat space_codes)"
  "last (fiveAdjustments str a) \<notin> set (concat space_codes)"
    apply (simp add: fiveAdjustments_def)
   apply (simp add: fiveAdjustments_def space_codes_def)
  apply (simp add: fiveAdjustments_def space_codes_def)
  done

lemma adjustmentFilter_split:
  "adjustmentFilter str a = [CHR 0x0A] @ ''      '' @ fiveAdjustments str a @ [CHR 0x0A] @ ''    ''"
  by (simp add: adjustmentFilter_def fiveAdjustments_def)

lemma plain_chars: "c \<in> set ''bcghis'' \<Longrightarrow> c \<notin> set (concat space_codes)"
  by (auto simp: space_codes_def)

lemma style_initial:
  "f \<in> set (filters str) \<Longrightarrow> style f i = [] \<or> hd (style f i) \<in> set ''bcghis''"
  by (auto simp: filters_def)

lemma style_head:
  "f \<in> set (filters str) \<Longrightarrow> style f i = [] \<or> hd (style f i) \<notin> set (concat space_codes)"
  using style_initial[of f str i] plain_chars[of "hd (style f i)"] by blast

lemma combined_of_preset:
  assumes "s = [] \<or> hd s \<notin> set (concat space_codes)"
  shows "trim (s @ '' '' @ adjustmentFilter str a)
    = (if s = [] then fiveAdjustments str a
       else s @ '' '' @ [CHR 0x0A] @ ''      '' @ fiveAdjustments str a)"
proof (cases "s = []")
  case True
  have "trim (('' '' @ [CHR 0x0A] @ ''      '') @ fiveAdjustments str a @ ([CHR 0x0A] @ ''    ''))
      = fiveAdjustments str a"
    using fiveAdjustments_ends[of str a]
    by (intro trim_strip) simp_all
  with True show ?thesis by (simp add: adjustmentFilter_split)
next
  case False
  let ?b = "s @ '' '' @ [CHR 0x0A] @ ''      '' @ fiveAdjustments str a"
  have "trim ([] @ ?b @ ([CHR 0x0A] @ ''    '')) = ?b"
    using False assms fiveAdjustments_ends[of str a]
    by (intro trim_strip) simp_all
  with False show ?thesis by (simp add: adjustmentFilter_split)
qed

lemma getCombinedStyle_lookup:
  "getCombinedStyle str p =
     (let preset = or_empty (map_option (\<lambda>f. style f (intensity (activeFilter p)))
            (find (\<lambda>f. filter_name f = active_name (activeFilter p)) (filters str)))
      in if preset = [] then fiveAdjustments str (adjustments p)
         else preset @ '' '' @ [CHR 0x0A] @ ''      '' @ fiveAdjustments str (adjustments p))"
proof -
  let ?found = "find (\<lambda>f. filter_name f = active_name (activeFilter p)) (filters str)"
  let ?preset = "or_empty (map_option (\<lambda>f. style f (intensity (activeFilter p))) ?found)"
  have "?preset = [] \<or> hd ?preset \<notin> set (concat space_codes)"
  proof (cases ?found)
    case None
    then show ?thesis by (simp add: or_empty_def)
  next
    case (Some f)
    then have "f \<in> set (filters str)" by (auto simp: find_Some_iff)
    from style_head[OF this] Some show ?thesis by (simp add: or_empty_def)
  qed
  from combined_of_preset[OF this] show ?thesis
    by (simp add: getCombinedStyle_def Let_def)
qed

lemma unknown_name_five:
  assumes "active_name (activeFilter p) \<notin> filter_name ` set (filters str)"
  shows "getCombinedStyle str p = fiveAdjustments str (adjustments p)"
proof -
  have "find (\<lambda>f. filter_name f = active_name (activeFilter p)) (filters str) = None"
    using assms by (force simp: find_None_iff image_iff)
  then show ?thesis
    by (simp add: getCombinedStyle_lookup or_empty_def)
qed

lemma filter_names:
  "map filter_name (filters str)
     = [''None'', ''Auto Enhance'', ''Grayscale'', ''Sepia'', ''Invert'', ''Noir'',
         ''Vibrant'', ''Cool'', ''Warm'', ''High Contrast'', ''Vintage'', ''Cyberpunk'',
         ''Pastel'', ''Dreamy'', ''Nashville'', ''Lomo'', ''Gotham'', ''Pop Art'',
         ''Infrared'', ''Old West'', ''Emerald City'']"
  by (simp add: filters_def)

text \<open>
  Claim C5. The filter system is a table of 21 named presets, the same names whatever
  the inputs, and each preset is a template: a fixed text in which the intensity \<open>i\<close>, or
  one of \<open>c * (i / 100)\<close>, \<open>100 + c * (i / 100)\<close> and \<open>100 - c * (i / 100)\<close> for a
  constant \<open>c\<close>, is written at fixed places. For every active filter name and intensity
  the result of \<open>getCombinedStyle\<close> is the instance of the template of that name,
  followed by the five adjustment functions brightness, contrast, saturate, sepia (of the
  warmth) and hue-rotate (of the tint) and by nothing else, the white space of the
  template between them; for the preset \<open>None\<close>, whose template is empty, and for a name
  that is not in the table, it is the five adjustment functions alone. The result depends
  on nothing but the name, the intensity, the five adjustments and the way in which a
  number is written.
\<close>

theorem getCombinedStyle_preset_then_five:
  "map filter_name (filters str)
     = [''None'', ''Auto Enhance'', ''Grayscale'', ''Sepia'', ''Invert'', ''Noir'',
         ''Vibrant'', ''Cool'', ''Warm'', ''High Contrast'', ''Vintage'', ''Cyberpunk'',
         ''Pastel'', ''Dreamy'', ''Nashville'', ''Lomo'', ''Gotham'', ''Pop Art'',
         ''Infrared'', ''Old West'', ''Emerald City'']
   \<and> (let i = intensity (activeFilter p);
          scaled = (\<lambda>c. js_mul (js_lit c) (js_div i (js_lit 100)));
          raised = (\<lambda>c. js_add (js_lit 100) (scaled c));
          lowered = (\<lambda>c. js_sub (js_lit 100) (scaled c));
          five = ''brightness('' @ str (brightness (adjustments p)) @ ''%) ''
            @ [CHR 0x0A] @ ''      contrast('' @ str (contrast (adjustments p)) @ ''%) ''
            @ [CHR 0x0A] @ ''      saturate('' @ str (saturation (adjustments p)) @ ''%) ''
            @ [CHR 0x0A] @ ''      sepia('' @ str (warmth (adjustments p)) @ ''%) ''
            @ [CHR 0x0A] @ ''      hue-rotate('' @ str (tint (adjustments p)) @ ''deg)'';
          after = (\<lambda>preset. getCombinedStyle str p
            = preset @ '' '' @ [CHR 0x0A] @ ''      '' @ five)
      in (active_name (activeFilter p) = ''None'' \<longrightarrow> getCombinedStyle str p = five)
       \<and> (active_name (activeFilter p) = ''Auto Enhance'' \<longrightarrow> after
           (''brightness('' @ str (raised 5) @ ''%) contrast('' @ str (raised 15) @
            ''%) saturate('' @ str (raised 20) @ ''%)''))
       \<and> (active_name (activeFilter p) = ''Grayscale'' \<longrightarrow> after
           (''grayscale('' @ str i @ ''%)''))
       \<and> (active_name (activeFilter p) = ''Sepia'' \<longrightarrow> after
           (''sepia('' @ str i @ ''%)''))
       \<and> (active_name (activeFilter p) = ''Invert'' \<longrightarrow> after
           (''invert('' @ str i @ ''%)''))
       \<and> (active_name (activeFilter p) = ''Noir'' \<longrightarrow> after
           (''grayscale(100%) contrast('' @ str (raised 25) @ ''%) brightness('' @
            str (lowered 10) @ ''%)''))
       \<and> (active_name (activeFilter p) = ''Vibrant'' \<longrightarrow> after
           (''saturate('' @ str (raised 50) @ ''%)''))
       \<and> (active_name (activeFilter p) = ''Cool'' \<longrightarrow> after
           (''hue-rotate(-'' @ str (scaled 15) @ ''deg) saturate('' @ str (raised 25) @ ''%)''))
       \<and> (active_name (activeFilter p) = ''Warm'' \<longrightarrow> after
           (''sepia('' @ str (scaled 20) @ ''%) saturate('' @ str (raised 25) @
            ''%) brightness('' @ str (raised 5) @ ''%)''))
       \<and> (active_name (activeFilter p) = ''High Contrast'' \<longrightarrow> after
           (''contrast('' @ str (raised 100) @ ''%)''))
       \<and> (active_name (activeFilter p) = ''Vintage'' \<longrightarrow> after
           (''sepia('' @ str (scaled 80) @ ''%) contrast('' @ str (raised 10) @
            ''%) brightness('' @ str (lowered 5) @ ''%) saturate('' @ str (lowered 20) @
            ''%)''))
       \<and> (active_name (activeFilter p) = ''Cyberpunk'' \<longrightarrow> after
           (''contrast('' @ str (raised 40) @ ''%) hue-rotate('' @ str (scaled 180) @
            ''deg) saturate('' @ str (raised 60) @ ''%) brightness('' @ str (raised 5) @
            ''%)''))
       \<and> (active_name (activeFilter p) = ''Pastel'' \<longrightarrow> after
           (''saturate('' @ str (lowered 40) @ ''%) contrast('' @ str (lowered 25) @
            ''%) brightness('' @ str (raised 10) @ ''%)''))
       \<and> (active_name (activeFilter p) = ''Dreamy'' \<longrightarrow> after
           (''blur('' @ str (scaled 3) @ ''px) brightness('' @ str (raised 15) @
            ''%) contrast('' @ str (lowered 15) @ ''%) saturate('' @ str (raised 10) @ ''%)''))
       \<and> (active_name (activeFilter p) = ''Nashville'' \<longrightarrow> after
           (''sepia('' @ str (scaled 20) @ ''%) contrast('' @ str (raised 20) @
            ''%) brightness('' @ str (raised 5) @ ''%) saturate('' @ str (raised 20) @ ''%)''))
       \<and> (active_name (activeFilter p) = ''Lomo'' \<longrightarrow> after
           (''saturate('' @ str (raised 50) @ ''%) contrast('' @ str (raised 50) @
            ''%) sepia('' @ str (scaled 30) @ ''%)''))
       \<and> (active_name (activeFilter p) = ''Gotham'' \<longrightarrow> after
           (''contrast('' @ str (raised 30) @ ''%) brightness('' @ str (lowered 10) @
            ''%) sepia('' @ str (scaled 30) @ ''%)''))
       \<and> (active_name (activeFilter p) = ''Pop Art'' \<longrightarrow> after
           (''contrast('' @ str (raised 100) @ ''%) saturate('' @ str (raised 100) @
            ''%) hue-rotate('' @ str (scaled 15) @ ''deg)''))
       \<and> (active_name (activeFilter p) = ''Infrared'' \<longrightarrow> after
           (''hue-rotate(-'' @ str (scaled 60) @ ''deg) saturate('' @ str (raised 100) @
            ''%) contrast('' @ str (raised 50) @ ''%)''))
       \<and> (active_name (activeFilter p) = ''Old West'' \<longrightarrow> after
           (''sepia('' @ str (scaled 100) @ ''%) contrast('' @ str (lowered 10) @
            ''%) brightness('' @ str (raised 10) @ ''%) saturate('' @ str (lowered 20) @
            ''%)''))
       \<and> (active_name (activeFilter p) = ''Emerald City'' \<longrightarrow> after
           (''hue-rotate('' @ str (scaled 90) @ ''deg) saturate('' @ str (raised 50) @
            ''%) contrast('' @ str (raised 20) @ ''%)''))
       \<and> (active_name (activeFilter p) \<notin> set
           [''None'', ''Auto Enhance'', ''Grayscale'', ''Sepia'', ''Invert'', ''Noir'',
            ''Vibrant'', ''Cool'', ''Warm'', ''High Contrast'', ''Vintage'', ''Cyberpunk'',
            ''Pastel'', ''Dreamy'', ''Nashville'', ''Lomo'', ''Gotham'', ''Pop Art'',
            ''Infrared'', ''Old West'', ''Emerald City'']
           \<longrightarrow> getCombinedStyle str p = five))"
proof -
  have unknown: "getCombinedStyle str p = fiveAdjustments str (adjustments p)"
    if "active_name (activeFilter p) \<notin> set
           [''None'', ''Auto Enhance'', ''Grayscale'', ''Sepia'', ''Invert'', ''Noir'',
            ''Vibrant'', ''Cool'', ''Warm'', ''High Contrast'', ''Vintage'', ''Cyberpunk'',
            ''Pastel'', ''Dreamy'', ''Nashville'', ''Lomo'', ''Gotham'', ''Pop Art'',
            ''Infrared'', ''Old West'', ''Emerald City'']"
  proof (rule unknown_name_five)
    show "active_name (activeFilter p) \<notin> filter_name ` set (filters str)"
      using that unfolding set_map[symmetric] filter_names .
  qed
  show ?thesis
    unfolding Let_def
                          apply (intro conjI impI)
                        apply (rule filter_names)
                       prefer 22
                       apply (drule unknown)
                       apply (simp add: fiveAdjustments_def)
                      apply (simp_all add: getCombinedStyle_lookup filters_def or_empty_def
        up_def down_def part_def fiveAdjustments_def Let_def)
    done
qed


theorem getCombinedStyle_preset_then_five_witness:
  "active_name (activeFilter (sample_panel\<lparr>
       adjustments := \<lparr>brightness = Fin 110, contrast = Fin 100, saturation = Fin 100,
         warmth = Fin 0, tint = Fin 0, vignette = Fin 0\<rparr>,
       activeFilter := \<lparr>active_name = ''Sepia'', intensity = Fin 40\<rparr>\<rparr>)) = ''Sepia''
   \<and> getCombinedStyle
        (\<lambda>n. if n = Fin 40 then ''40'' else if n = Fin 110 then ''110''
              else if n = Fin 100 then ''100'' else ''0'')
        (sample_panel\<lparr>
           adjustments := \<lparr>brightness = Fin 110, contrast = Fin 100, saturation = Fin 100,
             warmth = Fin 0, tint = Fin 0, vignette = Fin 0\<rparr>,
           activeFilter := \<lparr>active_name = ''Sepia'', intensity = Fin 40\<rparr>\<rparr>)
      = ''sepia(40%) '' @ [CHR 0x0A] @ ''      brightness(110%) ''
        @ [CHR 0x0A] @ ''      contrast(100%) ''
        @ [CHR 0x0A] @ ''      saturate(100%) ''
        @ [CHR 0x0A] @ ''      sepia(0%) ''
        @ [CHR 0x0A] @ ''      hue-rotate(0deg)''"
  using getCombinedStyle_preset_then_five[of
      "\<lambda>n. if n = Fin 40 then ''40'' else if n = Fin 110 then ''110''
            else if n = Fin 100 then ''100'' else ''0''"
      "sample_panel\<lparr>
         adjustments := \<lparr>brightness = Fin 110, contrast = Fin 100, saturation = Fin 100,
           warmth = Fin 0, tint = Fin 0, vignette = Fin 0\<rparr>,
         activeFilter := \<lparr>active_name = ''Sepia'', intensity = Fin 40\<rparr>\<rparr>"]
  by (simp add: Let_def)

text \<open>
  Claim C10. \<open>getCombinedStyle\<close> is total in the name of the active filter: a name that
  matches no entry of the table falls back to the empty preset, and the result is the
  five adjustment functions alone. The function has no failing branch.
\<close>

theorem getCombinedStyle_unknown_name:
  assumes "active_name (activeFilter p) \<notin> filter_name ` set (filters str)"
  shows "getCombinedStyle str p = fiveAdjustments str (adjustments p)"
proof -
  have "find (\<lambda>f. filter_name f = active_name (activeFilter p)) (filters str) = None"
    using assms by (force simp: find_None_iff image_iff)
  then show ?thesis
    by (simp add: getCombinedStyle_lookup or_empty_def)
qed

theorem getCombinedStyle_unknown_name_witness:
  "''Bogus'' \<notin> filter_name ` set (filters (\<lambda>n. ''7''))
   \<and> getCombinedStyle (\<lambda>n. ''7'')
        \<lparr>displayImage = ''x'', adjustments = initialAdjustments,
         activeFilter = \<lparr>active_name = ''Bogus'', intensity = Fin 100\<rparr>,
         retouchOptions = \<lparr>enhanceSkin = False, brightenEyes = False, whitenTeeth = False,
           reduceDarkCircles = False\<rparr>,
         isRetouching = False, retouchError = None\<rparr>
     = ''brightness(7%) '' @ [CHR 0x0A] @ ''      contrast(7%) '' @ [CHR 0x0A]
       @ ''      saturate(7%) '' @ [CHR 0x0A] @ ''      sepia(7%) '' @ [CHR 0x0A]
       @ ''      hue-rotate(7deg)''"
proof -
  have h: "''Bogus'' \<notin> filter_name ` set (filters (\<lambda>n. ''7''))"
    by (simp add: filters_def)
  show ?thesis
    using h getCombinedStyle_unknown_name[of
        "\<lparr>displayImage = ''x'', adjustments = initialAdjustments,
         activeFilter = \<lparr>active_name = ''Bogus'', intensity = Fin 100\<rparr>,
         retouchOptions = \<lparr>enhanceSkin = False, brightenEyes = False, whitenTeeth = False,
           reduceDarkCircles = False\<rparr>,
         isRetouching = False, retouchError = None\<rparr>" "\<lambda>n. ''7''"]
    by (simp add: fiveAdjustments_def)
qed


section \<open>Rounding to a double\<close>

lemma pow2_powi: "pow2 e = 2 powi e"
  by (simp add: pow2_def power_int_def inverse_eq_divide power_one_over)

lemma pow2_pos: "0 < pow2 e"
  by (simp add: pow2_def)

lemma pow2_less_iff: "pow2 a < pow2 b \<longleftrightarrow> a < b"
proof
  assume "a < b"
  then show "pow2 a < pow2 b"
    unfolding pow2_powi by (intro power_int_strict_increasing) simp_all
next
  assume lt: "pow2 a < pow2 b"
  show "a < b"
  proof (rule ccontr)
    assume "\<not> a < b"
    then have "b \<le> a" by simp
    then have "pow2 b \<le> pow2 a"
      unfolding pow2_powi by (intro power_int_increasing) simp_all
    with lt show False by simp
  qed
qed

lemma pow2_add: "pow2 (a + b) = pow2 a * pow2 b"
  unfolding pow2_powi by (simp add: power_int_add)

lemma floor_log2_bounds:
  assumes "0 < x"
  shows "pow2 (floor_log2 x) \<le> x \<and> x < pow2 (floor_log2 x + 1)"
proof -
  obtain p q where pq: "quotient_of x = (p, q)" by (cases "quotient_of x")
  then have q: "0 < q" by (rule quotient_of_denom_pos)
  have x: "x = of_int p / of_int q" using pq by (rule quotient_of_div)
  with assms q have p: "0 < p" by (simp add: zero_less_divide_iff)
  define d where "d = bitlen p - bitlen q"
  have bp: "1 \<le> bitlen p" and bq: "1 \<le> bitlen q"
    using p q bitlen_eq_zero_iff[of p] bitlen_eq_zero_iff[of q] bitlen_nonneg[of p] bitlen_nonneg[of q]
    by linarith+
  have "p < 2 ^ nat (bitlen p)" using bitlen_bounds[OF p] by simp
  then have "(of_int p :: rat) < of_int (2 ^ nat (bitlen p))" by (simp only: of_int_less_iff)
  then have p_hi: "(of_int p :: rat) < pow2 (bitlen p)"
    using bp by (simp add: pow2_def)
  have "2 ^ nat (bitlen q - 1) \<le> q" using bitlen_bounds[OF q] by simp
  then have "(of_int (2 ^ nat (bitlen q - 1)) :: rat) \<le> of_int q" by (simp only: of_int_le_iff)
  then have q_lo: "pow2 (bitlen q - 1) \<le> (of_int q :: rat)"
    using bq by (simp add: pow2_def)
  have "x * of_int q < pow2 (d + 1) * pow2 (bitlen q - 1)"
    using p_hi q x by (simp add: d_def pow2_add[symmetric])
  also have "\<dots> \<le> pow2 (d + 1) * of_int q"
    using q_lo pow2_pos[of "d + 1"] by simp
  finally have hi: "x < pow2 (d + 1)" using q by simp
  show ?thesis
  proof (cases "pow2 d \<le> x")
    case True
    then have "floor_log2 x = d" by (simp add: floor_log2_def pq d_def Let_def)
    with True hi show ?thesis by simp
  next
    case False
    then have fl: "floor_log2 x = d - 1" by (simp add: floor_log2_def pq d_def Let_def)
    have "2 ^ nat (bitlen p - 1) \<le> p" using bitlen_bounds[OF p] by simp
    then have "(of_int (2 ^ nat (bitlen p - 1)) :: rat) \<le> of_int p" by (simp only: of_int_le_iff)
    then have p_lo: "pow2 (bitlen p - 1) \<le> (of_int p :: rat)"
      using bp by (simp add: pow2_def)
    have "q < 2 ^ nat (bitlen q)" using bitlen_bounds[OF q] by simp
    then have "(of_int q :: rat) < of_int (2 ^ nat (bitlen q))" by (simp only: of_int_less_iff)
    then have q_hi: "(of_int q :: rat) < pow2 (bitlen q)"
      using bq by (simp add: pow2_def)
    have "pow2 (d - 1) * of_int q \<le> pow2 (d - 1) * pow2 (bitlen q)"
      using q_hi pow2_pos[of "d - 1"] by simp
    also have "\<dots> = pow2 (bitlen p - 1)" by (simp add: d_def pow2_add[symmetric])
    also have "\<dots> \<le> x * of_int q" using p_lo x q by simp
    finally have "pow2 (d - 1) \<le> x" using q by simp
    with fl False show ?thesis by simp
  qed
qed

lemma floor_log2_unique:
  assumes "pow2 a \<le> x" and "x < pow2 (a + 1)"
  shows "floor_log2 x = a"
proof -
  have "0 < x" using assms(1) pow2_pos[of a] by simp
  from floor_log2_bounds[OF this]
  have "pow2 (floor_log2 x) < pow2 (a + 1)" and "pow2 a < pow2 (floor_log2 x + 1)"
    using assms by simp_all
  then show ?thesis by (simp add: pow2_less_iff)
qed

lemma rne_close: "\<bar>of_int (rne y) - y\<bar> \<le> 1 / 2"
proof -
  have "of_int \<lfloor>y\<rfloor> \<le> y" and "y < of_int \<lfloor>y\<rfloor> + 1" by linarith+
  then show ?thesis by (auto simp: rne_def Let_def)
qed

lemma round_double_at:
  assumes "pow2 (e + 52) \<le> \<bar>x\<bar>" and "\<bar>x\<bar> < pow2 (e + 53)" and "- 1074 \<le> e" and "e \<le> 970"
  shows "round_double x = Fin (of_int (rne (x / pow2 e)) * pow2 e)"
proof -
  have x0: "x \<noteq> 0" using assms(1) pow2_pos[of "e + 52"] by auto
  have fl: "floor_log2 \<bar>x\<bar> = e + 52"
    using assms(1,2) by (intro floor_log2_unique) (simp_all add: add.assoc)
  have e: "max (floor_log2 \<bar>x\<bar> - 52) (- 1074) = e" using fl assms(3) by simp
  have "\<bar>x / pow2 e\<bar> < pow2 53"
    using assms(2) pow2_pos[of e] by (simp add: pow2_add abs_mult pos_divide_less_eq mult.commute)
  moreover have "\<bar>of_int (rne (x / pow2 e)) - x / pow2 e\<bar> \<le> 1 / 2" by (rule rne_close)
  ultimately have "\<bar>(of_int (rne (x / pow2 e)) :: rat)\<bar> < pow2 53 + 1 / 2" by linarith
  then have "\<bar>rne (x / pow2 e)\<bar> < 2 ^ 53 + 1"
    by (simp add: pow2_def)
  then have "\<bar>rne (x / pow2 e)\<bar> \<le> 2 ^ 53" by simp
  then have "\<bar>(of_int (rne (x / pow2 e)) :: rat)\<bar> \<le> of_int (2 ^ 53)"
    by (simp only: of_int_abs[symmetric] of_int_le_iff)
  then have "\<bar>(of_int (rne (x / pow2 e)) :: rat)\<bar> \<le> pow2 53" by (simp add: pow2_def)
  then have "\<bar>of_int (rne (x / pow2 e)) * pow2 e\<bar> \<le> pow2 53 * pow2 e"
    using pow2_pos[of e] by (simp add: abs_mult)
  also have "\<dots> = pow2 (53 + e)" by (simp add: pow2_add)
  also have "\<dots> < pow2 1024" using assms(4) by (simp add: pow2_less_iff)
  finally have "\<not> pow2 1024 \<le> \<bar>of_int (rne (x / pow2 e)) * pow2 e\<bar>" by simp
  then show ?thesis
    using x0 by (simp add: round_double_def e Let_def)
qed

lemma floor_rat_numeral:
  "\<lfloor>(numeral a / numeral b :: rat)\<rfloor> = numeral a div numeral b"
  "\<lfloor>(- (numeral a / numeral b) :: rat)\<rfloor> = - numeral a div numeral b"
  using floor_divide_of_int_eq[of "numeral a" "numeral b", where ?'a = rat]
    floor_divide_of_int_eq[of "- numeral a" "numeral b", where ?'a = rat]
  by simp_all

text \<open>The binades of the numbers that the quality loop meets, and of the integer 1024.\<close>

lemmas round_at = round_double_at[where e = "- 53"] round_double_at[where e = "- 54"]
  round_double_at[where e = "- 55"] round_double_at[where e = "- 56"]
  round_double_at[where e = "- 57"] round_double_at[where e = "- 42"]

lemmas eval_double = js_lit_def js_sub_def round_at pow2_def rne_def Let_def floor_rat_numeral

section \<open>The quality loop\<close>

lemma below_tenth: "\<not> js_gt (quality_after 17) (js_lit (1 / 10))"
  by (simp add: quality_after_def eval_nat_numeral eval_double)

lemma above_tenth: "list_all (\<lambda>k. js_gt (quality_after k) (js_lit (1 / 10))) [0..<17]"
  by (simp add: upt_rec quality_after_def eval_nat_numeral eval_double)

lemma args_in_range: "list_all (\<lambda>k. in_quality_range (quality_arg k)) [0..<18]"
  by (simp add: upt_rec quality_arg_def quality_after_def in_quality_range_def js_max_def
      eval_nat_numeral eval_double)

text \<open>
  The doubles of the descent, as a JavaScript engine prints them: 0.95,
  0.8999999999999999, \<dots>, 0.1499999999999997, 0.09999999999999969.
\<close>

lemma quality_after_values:
  "quality_after 0 = Fin (4278419646001971 / 4503599627370496)"
  "quality_after 1 = Fin (2026619832316723 / 2251799813685248)"
  "quality_after 16 = Fin (675539944105573 / 4503599627370496)"
  "quality_after 17 = Fin (7205759403792771 / 72057594037927936)"
  "js_lit (1 / 10) = Fin (3602879701896397 / 36028797018963968)"
  by (simp_all add: quality_after_def eval_nat_numeral eval_double)

lemma quality_after_near:
  "list_all (\<lambda>k. case quality_after k of
      Fin x \<Rightarrow> \<bar>x - (95 / 100 - of_nat k * (5 / 100))\<bar> \<le> 1 / 10 ^ 15 | _ \<Rightarrow> False) [0..<18]"
  by (simp add: upt_rec quality_after_def eval_nat_numeral eval_double)

lemma above_tenth_iff: "k \<le> 17 \<Longrightarrow> js_gt (quality_after k) (js_lit (1 / 10)) \<longleftrightarrow> k < 17"
  using above_tenth below_tenth
  by (cases "k = 17") (auto simp: list_all_iff)

lemma quality_after_Suc: "js_sub (quality_after k) (js_lit (1 / 20)) = quality_after (Suc k)"
  by (simp add: quality_after_def)

lemma quality_arg_Suc: "js_max (js_lit (1 / 10)) (quality_after (Suc k)) = quality_arg (Suc k)"
  by (simp add: quality_arg_def)

lemma loop_run:
  assumes "k \<le> 17" and "enc cv ImageJpeg (Some (quality_arg k)) = Some b"
  shows "\<exists>n. k \<le> n \<and> n \<le> 17
    \<and> reduce_quality enc cv t (quality_after k) b calls
        = Some (getBlob enc cv ImageJpeg (Some (quality_arg n)), calls @ map jpeg_call [Suc k..<Suc n])
    \<and> (\<forall>j. k \<le> j \<and> j < n \<longrightarrow> (\<exists>b'. enc cv ImageJpeg (Some (quality_arg j)) = Some b' \<and> too_big b' t))
    \<and> (case enc cv ImageJpeg (Some (quality_arg n)) of None \<Rightarrow> True
        | Some b' \<Rightarrow> \<not> too_big b' t \<or> n = 17)"
  using assms
proof (induction "17 - k" arbitrary: k b calls)
  case 0
  then have k: "k = 17" by simp
  have "reduce_quality enc cv t (quality_after k) b calls = Some (Inr b, calls)"
    by (subst reduce_quality.simps) (simp add: k below_tenth)
  with 0 k show ?case
    by (intro exI[of _ 17]) (auto simp: getBlob_def)
next
  case (Suc m)
  then have k: "k < 17" by simp
  show ?case
  proof (cases "too_big b t")
    case False
    have "reduce_quality enc cv t (quality_after k) b calls = Some (Inr b, calls)"
      using False by (subst reduce_quality.simps) (simp add: too_big_def)
    with Suc.prems False show ?thesis
      by (intro exI[of _ k]) (auto simp: getBlob_def)
  next
    case True
    have gt: "js_gt (quality_after k) (js_lit (1 / 10))"
      using k above_tenth_iff[of k] by simp
    show ?thesis
    proof (cases "enc cv ImageJpeg (Some (quality_arg (Suc k)))")
      case None
      have "reduce_quality enc cv t (quality_after k) b calls
          = Some (getBlob enc cv ImageJpeg (Some (quality_arg (Suc k))), calls @ [jpeg_call (Suc k)])"
        using True gt None
        by (subst reduce_quality.simps)
           (simp add: too_big_def Let_def quality_after_Suc quality_arg_Suc getBlob_def jpeg_call_def)
      moreover have "\<forall>j. k \<le> j \<and> j < Suc k \<longrightarrow> (\<exists>b'. enc cv ImageJpeg (Some (quality_arg j)) = Some b' \<and> too_big b' t)"
        using Suc.prems True by (auto simp: less_Suc_eq)
      ultimately show ?thesis using k None
        by (intro exI[of _ "Suc k"]) simp
    next
      case (Some b')
      have m: "m = 17 - Suc k" using Suc.hyps by simp
      from Suc.hyps(1)[OF m _ Some, of "calls @ [jpeg_call (Suc k)]"] k
      obtain n where n: "Suc k \<le> n" "n \<le> 17"
        "reduce_quality enc cv t (quality_after (Suc k)) b' (calls @ [jpeg_call (Suc k)])
          = Some (getBlob enc cv ImageJpeg (Some (quality_arg n)),
              (calls @ [jpeg_call (Suc k)]) @ map jpeg_call [Suc (Suc k)..<Suc n])"
        "\<forall>j. Suc k \<le> j \<and> j < n \<longrightarrow> (\<exists>b'. enc cv ImageJpeg (Some (quality_arg j)) = Some b' \<and> too_big b' t)"
        "case enc cv ImageJpeg (Some (quality_arg n)) of None \<Rightarrow> True
          | Some b' \<Rightarrow> \<not> too_big b' t \<or> n = 17"
        by auto
      have upt: "[Suc k..<Suc n] = Suc k # [Suc (Suc k)..<Suc n]"
        using n(1) by (simp add: upt_conv_Cons)
      have "reduce_quality enc cv t (quality_after k) b calls
          = reduce_quality enc cv t (quality_after (Suc k)) b' (calls @ [jpeg_call (Suc k)])"
        using True gt Some
        by (subst reduce_quality.simps)
           (simp add: too_big_def Let_def quality_after_Suc quality_arg_Suc getBlob_def jpeg_call_def)
      then have run: "reduce_quality enc cv t (quality_after k) b calls
          = Some (getBlob enc cv ImageJpeg (Some (quality_arg n)), calls @ map jpeg_call [Suc k..<Suc n])"
        using n(3) upt by simp
      have "\<forall>j. k \<le> j \<and> j < n \<longrightarrow> (\<exists>b'. enc cv ImageJpeg (Some (quality_arg j)) = Some b' \<and> too_big b' t)"
      proof (intro allI impI)
        fix j assume j: "k \<le> j \<and> j < n"
        show "\<exists>b'. enc cv ImageJpeg (Some (quality_arg j)) = Some b' \<and> too_big b' t"
        proof (cases "j = k")
          case True
          then show ?thesis using Suc.prems \<open>too_big b t\<close> by simp
        next
          case False
          then show ?thesis using j n(4) by simp
        qed
      qed
      with run n show ?thesis
        by (intro exI[of _ n]) simp
    qed
  qed
qed

lemma make_blob_target:
  assumes "format st = JPEG" and "isEnabled (targetSize st)"
  shows "\<exists>n\<le>17. make_blob enc cv st
        = Some (getBlob enc cv ImageJpeg (Some (quality_arg n)), map jpeg_call [0..<Suc n])
    \<and> (\<forall>j<n. \<exists>b. enc cv ImageJpeg (Some (quality_arg j)) = Some b
          \<and> too_big b (targetBytes (targetSize st)))
    \<and> (case enc cv ImageJpeg (Some (quality_arg n)) of None \<Rightarrow> True
        | Some b \<Rightarrow> \<not> too_big b (targetBytes (targetSize st)) \<or> n = 17)"
proof (cases "enc cv ImageJpeg (Some (quality_arg 0))")
  case None
  then have "make_blob enc cv st
      = Some (getBlob enc cv ImageJpeg (Some (quality_arg 0)), map jpeg_call [0..<Suc 0])"
    using assms
    by (simp add: make_blob_def Let_def getBlob_def jpeg_call_def quality_arg_def quality_after_def)
  with None show ?thesis by (intro exI[of _ 0]) simp
next
  case (Some b)
  from loop_run[where k = 0 and enc = enc and cv = cv and b = b
      and t = "targetBytes (targetSize st)" and calls = "[jpeg_call 0]"] Some
  obtain n where n: "n \<le> 17"
    "reduce_quality enc cv (targetBytes (targetSize st)) (quality_after 0) b [jpeg_call 0]
      = Some (getBlob enc cv ImageJpeg (Some (quality_arg n)), [jpeg_call 0] @ map jpeg_call [Suc 0..<Suc n])"
    "\<forall>j. 0 \<le> j \<and> j < n \<longrightarrow> (\<exists>b'. enc cv ImageJpeg (Some (quality_arg j)) = Some b'
        \<and> too_big b' (targetBytes (targetSize st)))"
    "case enc cv ImageJpeg (Some (quality_arg n)) of None \<Rightarrow> True
      | Some b' \<Rightarrow> \<not> too_big b' (targetBytes (targetSize st)) \<or> n = 17"
    by auto
  have "[jpeg_call 0] @ map jpeg_call [Suc 0..<Suc n] = map jpeg_call [0..<Suc n]"
    by (subst (2) upt_conv_Cons) simp_all
  with n(2) Some have "make_blob enc cv st
      = Some (getBlob enc cv ImageJpeg (Some (quality_arg n)), map jpeg_call [0..<Suc n])"
    using assms
    by (simp add: make_blob_def Let_def getBlob_def jpeg_call_def quality_arg_def quality_after_def)
  with n show ?thesis by (intro exI[of _ n]) simp
qed


section \<open>The export of DownloadModal\<close>

text \<open>Whatever the settings: every call but the last gave a blob, and the last call decides.\<close>

lemma make_blob_calls:
  "\<exists>calls. calls \<noteq> [] \<and> make_blob enc cv st
      = Some (getBlob enc cv (fst (last calls)) (snd (last calls)), calls)
    \<and> (\<forall>c\<in>set (butlast calls). enc cv (fst c) (snd c) \<noteq> None)"
proof (cases "format st = JPEG \<and> isEnabled (targetSize st)")
  case True
  from make_blob_target[of st enc cv] True
  obtain n where n: "n \<le> 17"
    "make_blob enc cv st
      = Some (getBlob enc cv ImageJpeg (Some (quality_arg n)), map jpeg_call [0..<Suc n])"
    "\<forall>j<n. \<exists>b. enc cv ImageJpeg (Some (quality_arg j)) = Some b
        \<and> too_big b (targetBytes (targetSize st))"
    by auto
  have "\<forall>c\<in>set (butlast (map jpeg_call [0..<Suc n])). enc cv (fst c) (snd c) \<noteq> None"
    using n(3) by (auto simp: jpeg_call_def)
  with n(2) show ?thesis
    by (intro exI[of _ "map jpeg_call [0..<Suc n]"]) (simp add: jpeg_call_def)
next
  case False
  show ?thesis
  proof (cases "format st")
    case PNG
    then show ?thesis
      by (intro exI[of _ "[(ImagePng, None)]"]) (simp add: make_blob_def)
  next
    case JPEG
    with False show ?thesis
      by (intro exI[of _ "[(ImageJpeg, Some (js_div (jpegQuality st) (js_lit 100)))]"])
         (simp add: make_blob_def Let_def)
  qed
qed

lemma handleDownload_returns: "\<exists>r. handleDownload enc gcp st = Some r"
proof (cases "gcp ()")
  case (Inl e)
  then show ?thesis by (simp add: handleDownload_def Let_def)
next
  case (Inr cv)
  obtain res calls where "make_blob enc cv (st\<lparr>isProcessing := True, downloadError := None\<rparr>) = Some (res, calls)"
    using make_blob_calls[of enc cv "st\<lparr>isProcessing := True, downloadError := None\<rparr>"] by blast
  with Inr show ?thesis
    by (cases res) (simp_all add: handleDownload_def Let_def)
qed


lemma handleDownload_target:
  assumes "format st = JPEG" and "isEnabled (targetSize st)" and "gcp () = Inr cv"
  shows "\<exists>n\<le>17. \<exists>r. handleDownload enc gcp st = Some r
    \<and> toBlobCalls r = map jpeg_call [0..<Suc n]
    \<and> (\<forall>k<n. \<exists>b. enc cv ImageJpeg (Some (quality_arg k)) = Some b
          \<and> too_big b (targetBytes (targetSize st)))
    \<and> (case enc cv ImageJpeg (Some (quality_arg n)) of
          None \<Rightarrow> downloads r = []
        | Some b \<Rightarrow> downloads r = [(trim (customFilename st) @ ''.jpeg'', b)]
            \<and> (\<not> too_big b (targetBytes (targetSize st)) \<or> n = 17))"
proof -
  let ?st = "st\<lparr>isProcessing := True, downloadError := None\<rparr>"
  have "\<exists>n\<le>17. make_blob enc cv ?st
        = Some (getBlob enc cv ImageJpeg (Some (quality_arg n)), map jpeg_call [0..<Suc n])
      \<and> (\<forall>j<n. \<exists>b. enc cv ImageJpeg (Some (quality_arg j)) = Some b
          \<and> too_big b (targetBytes (targetSize st)))
      \<and> (case enc cv ImageJpeg (Some (quality_arg n)) of None \<Rightarrow> True
        | Some b \<Rightarrow> \<not> too_big b (targetBytes (targetSize st)) \<or> n = 17)"
    using make_blob_target[of ?st enc cv] assms(1,2) by (simp cong: option.case_cong)
  then obtain n where "n \<le> 17 \<and> make_blob enc cv ?st
        = Some (getBlob enc cv ImageJpeg (Some (quality_arg n)), map jpeg_call [0..<Suc n])
      \<and> (\<forall>j<n. \<exists>b. enc cv ImageJpeg (Some (quality_arg j)) = Some b
          \<and> too_big b (targetBytes (targetSize st)))
      \<and> (case enc cv ImageJpeg (Some (quality_arg n)) of None \<Rightarrow> True
        | Some b \<Rightarrow> \<not> too_big b (targetBytes (targetSize st)) \<or> n = 17)" ..
  then have n: "n \<le> 17"
    "make_blob enc cv ?st
      = Some (getBlob enc cv ImageJpeg (Some (quality_arg n)), map jpeg_call [0..<Suc n])"
    "\<forall>j<n. \<exists>b. enc cv ImageJpeg (Some (quality_arg j)) = Some b
        \<and> too_big b (targetBytes (targetSize st))"
    "case enc cv ImageJpeg (Some (quality_arg n)) of None \<Rightarrow> True
      | Some b \<Rightarrow> \<not> too_big b (targetBytes (targetSize st)) \<or> n = 17"
    by blast+
  show ?thesis
  proof (cases "enc cv ImageJpeg (Some (quality_arg n))")
    case None
    with n assms show ?thesis
      by (intro exI[of _ n]) (simp add: handleDownload_def Let_def getBlob_def)
  next
    case (Some b)
    with n assms show ?thesis
      by (intro exI[of _ n]) (simp add: handleDownload_def Let_def getBlob_def lower_format_def)
  qed
qed


lemma sample_target: "targetBytes (targetSize sample_modal) = Fin 1024"
  by (simp add: targetBytes_def sample_modal_def eval_double)

lemma sample_hyps:
  "format sample_modal = JPEG" "isEnabled (targetSize sample_modal)"
  "sample_promise () = Inr createCanvas"
  by (simp_all add: sample_modal_def sample_promise_def)

text \<open>
  Claim C2. The loop of the JPEG export with a target size is a linear descent with a
  fixed step. \<open>handleDownload\<close> returns for every encoder, canvas promise and state. The
  variable \<open>quality\<close> starts at 0.95 and each pass subtracts 0.05 from it. With a target
  size set, the calls of \<open>toBlob\<close> are the calls \<open>0, \<dots>, n\<close> of that descent for some
  \<open>n \<le> 17\<close>: each call before the \<open>n\<close>-th gave a blob larger than the target at a
  quality above 0.1, and the \<open>n\<close>-th call failed, or gave a blob that is not larger than
  the target, or was made when the quality was no longer above 0.1.
\<close>

theorem handleDownload_linear_descent:
  "(\<exists>r. handleDownload enc gcp st = Some r)
   \<and> quality_after 0 = js_lit (95 / 100)
   \<and> (\<forall>k. quality_after (Suc k) = js_sub (quality_after k) (js_lit (5 / 100)))
   \<and> (format st = JPEG \<and> isEnabled (targetSize st) \<and> gcp () = Inr cv \<longrightarrow>
        (\<exists>n\<le>17. \<exists>r. handleDownload enc gcp st = Some r
          \<and> toBlobCalls r = map jpeg_call [0..<Suc n]
          \<and> (\<forall>k<n. js_gt (quality_after k) (js_lit (1 / 10))
                \<and> (\<exists>b. enc cv ImageJpeg (Some (quality_arg k)) = Some b
                      \<and> too_big b (targetBytes (targetSize st))))
          \<and> (case enc cv ImageJpeg (Some (quality_arg n)) of None \<Rightarrow> True
              | Some b \<Rightarrow> \<not> too_big b (targetBytes (targetSize st))
                  \<or> \<not> js_gt (quality_after n) (js_lit (1 / 10)))))"
proof (intro conjI impI)
  show "\<exists>r. handleDownload enc gcp st = Some r" by (rule handleDownload_returns)
  show "quality_after 0 = js_lit (95 / 100)" by (simp add: quality_after_def)
  show "\<forall>k. quality_after (Suc k) = js_sub (quality_after k) (js_lit (5 / 100))"
    by (simp add: quality_after_def)
next
  assume a: "format st = JPEG \<and> isEnabled (targetSize st) \<and> gcp () = Inr cv"
  then have "\<exists>n\<le>17. \<exists>r. handleDownload enc gcp st = Some r
    \<and> toBlobCalls r = map jpeg_call [0..<Suc n]
    \<and> (\<forall>k<n. \<exists>b. enc cv ImageJpeg (Some (quality_arg k)) = Some b
          \<and> too_big b (targetBytes (targetSize st)))
    \<and> (case enc cv ImageJpeg (Some (quality_arg n)) of
          None \<Rightarrow> downloads r = []
        | Some b \<Rightarrow> downloads r = [(trim (customFilename st) @ ''.jpeg'', b)]
            \<and> (\<not> too_big b (targetBytes (targetSize st)) \<or> n = 17))"
    by (intro handleDownload_target) simp_all
  then obtain n r where nr: "n \<le> 17 \<and> handleDownload enc gcp st = Some r
    \<and> toBlobCalls r = map jpeg_call [0..<Suc n]
    \<and> (\<forall>k<n. \<exists>b. enc cv ImageJpeg (Some (quality_arg k)) = Some b
          \<and> too_big b (targetBytes (targetSize st)))
    \<and> (case enc cv ImageJpeg (Some (quality_arg n)) of
          None \<Rightarrow> downloads r = []
        | Some b \<Rightarrow> downloads r = [(trim (customFilename st) @ ''.jpeg'', b)]
            \<and> (\<not> too_big b (targetBytes (targetSize st)) \<or> n = 17))"
    by blast
  have gt: "\<forall>k<n. js_gt (quality_after k) (js_lit (1 / 10))"
    using nr above_tenth_iff by simp
  have stop: "case enc cv ImageJpeg (Some (quality_arg n)) of None \<Rightarrow> True
      | Some b \<Rightarrow> \<not> too_big b (targetBytes (targetSize st))
          \<or> \<not> js_gt (quality_after n) (js_lit (1 / 10))"
    using nr above_tenth_iff[of n] by (auto split: option.splits)
  show "\<exists>n\<le>17. \<exists>r. handleDownload enc gcp st = Some r
          \<and> toBlobCalls r = map jpeg_call [0..<Suc n]
          \<and> (\<forall>k<n. js_gt (quality_after k) (js_lit (1 / 10))
                \<and> (\<exists>b. enc cv ImageJpeg (Some (quality_arg k)) = Some b
                      \<and> too_big b (targetBytes (targetSize st))))
          \<and> (case enc cv ImageJpeg (Some (quality_arg n)) of None \<Rightarrow> True
              | Some b \<Rightarrow> \<not> too_big b (targetBytes (targetSize st))
                  \<or> \<not> js_gt (quality_after n) (js_lit (1 / 10)))"
    using nr gt stop by (intro exI[of _ n] conjI exI[of _ r]) simp_all
qed

theorem handleDownload_linear_descent_witness:
  "format sample_modal = JPEG \<and> isEnabled (targetSize sample_modal)
   \<and> sample_promise () = Inr createCanvas
   \<and> (\<exists>r. handleDownload always_fits sample_promise sample_modal = Some r
         \<and> toBlobCalls r = [jpeg_call 0])"
proof -
  from handleDownload_linear_descent[of always_fits sample_promise sample_modal createCanvas]
    sample_hyps
  obtain n r where nr: "handleDownload always_fits sample_promise sample_modal = Some r"
    "toBlobCalls r = map jpeg_call [0..<Suc n]"
    "\<forall>k<n. js_gt (quality_after k) (js_lit (1 / 10))
        \<and> (\<exists>b. always_fits createCanvas ImageJpeg (Some (quality_arg k)) = Some b
              \<and> too_big b (targetBytes (targetSize sample_modal)))"
    by blast
  have "n = 0"
  proof (rule ccontr)
    assume "n \<noteq> 0"
    then have "0 < n" by simp
    with nr(3) show False
      by (auto simp: always_fits_def too_big_def sample_target)
  qed
  with nr sample_hyps show ?thesis by simp
qed


text \<open>
  Claim C9. In the JPEG export with a target size every quality handed to the encoder
  lies in the closed interval from 0.1 to 0.95: the first call uses 0.95, and the
  \<open>k\<close>-th call after it uses the larger of 0.1 and the quality after \<open>k\<close> passes.
\<close>

theorem target_quality_in_range:
  assumes "format st = JPEG" and "isEnabled (targetSize st)"
  shows "\<exists>r. handleDownload enc gcp st = Some r
    \<and> (\<forall>k<length (toBlobCalls r). \<exists>q. toBlobCalls r ! k = (ImageJpeg, Some q)
          \<and> in_quality_range q
          \<and> q = (if k = 0 then js_lit (95 / 100)
                 else js_max (js_lit (1 / 10)) (quality_after k)))"
proof (cases "gcp ()")
  case (Inl e)
  then show ?thesis by (simp add: handleDownload_def Let_def)
next
  case (Inr cv)
  from handleDownload_target[where st = st and gcp = gcp and cv = cv and enc = enc] assms Inr
  obtain n r where nr: "n \<le> 17" "handleDownload enc gcp st = Some r"
    "toBlobCalls r = map jpeg_call [0..<Suc n]"
    by blast
  have "\<exists>q. toBlobCalls r ! k = (ImageJpeg, Some q) \<and> in_quality_range q
      \<and> q = (if k = 0 then js_lit (95 / 100) else js_max (js_lit (1 / 10)) (quality_after k))"
    if "k < length (toBlobCalls r)" for k
  proof -
    from that nr have k: "k < Suc n" by simp
    then have "toBlobCalls r ! k = jpeg_call k"
      unfolding nr(3) by (simp only: nth_map length_upt diff_zero nth_upt add_0)
    moreover have "in_quality_range (quality_arg k)"
      using k nr(1) args_in_range by (simp add: list_all_iff)
    ultimately show ?thesis
      by (simp add: jpeg_call_def quality_arg_def quality_after_def)
  qed
  with nr(2) show ?thesis by blast
qed

theorem target_quality_in_range_witness:
  "format sample_modal = JPEG \<and> isEnabled (targetSize sample_modal)
   \<and> (\<exists>r. handleDownload never_fits sample_promise sample_modal = Some r
     \<and> (\<forall>k<length (toBlobCalls r). \<exists>q. toBlobCalls r ! k = (ImageJpeg, Some q)
          \<and> in_quality_range q
          \<and> q = (if k = 0 then js_lit (95 / 100)
                 else js_max (js_lit (1 / 10)) (quality_after k))))"
  using target_quality_in_range[of sample_modal never_fits sample_promise] sample_hyps
  by simp

text \<open>
  Claim C1, as amended. With \<open>Target specific file size\<close> enabled, the quality of the
  exported JPEG is found by a linear descent, not by a binary search: the encoder is
  called at the qualities \<open>0, 1, \<dots>, n\<close> of the descent from 0.95 in steps of 0.05, one
  after the other; every call before the last gave a blob larger than the target; the
  blob of the last call is the one downloaded, and it is not larger than the target
  unless the descent has reached its last quality, 0.1.
\<close>

theorem handleDownload_first_fit:
  assumes "format st = JPEG" and "isEnabled (targetSize st)" and "gcp () = Inr cv"
  shows "\<exists>n\<le>17. \<exists>r. handleDownload enc gcp st = Some r
    \<and> length (toBlobCalls r) = Suc n
    \<and> (\<forall>k<n. toBlobCalls r ! k = (ImageJpeg, Some (quality_arg k))
          \<and> (\<exists>b. enc cv ImageJpeg (Some (quality_arg k)) = Some b
                \<and> too_big b (targetBytes (targetSize st))))
    \<and> toBlobCalls r ! n = (ImageJpeg, Some (quality_arg n))
    \<and> (case enc cv ImageJpeg (Some (quality_arg n)) of
          None \<Rightarrow> downloads r = []
        | Some b \<Rightarrow> downloads r = [(trim (customFilename st) @ ''.jpeg'', b)]
            \<and> (\<not> too_big b (targetBytes (targetSize st)) \<or> n = 17))"
proof -
  from handleDownload_target[where st = st and gcp = gcp and cv = cv and enc = enc] assms
  obtain n r where nr: "n \<le> 17" "handleDownload enc gcp st = Some r"
    "toBlobCalls r = map jpeg_call [0..<Suc n]"
    "\<forall>k<n. \<exists>b. enc cv ImageJpeg (Some (quality_arg k)) = Some b
          \<and> too_big b (targetBytes (targetSize st))"
    "case enc cv ImageJpeg (Some (quality_arg n)) of
          None \<Rightarrow> downloads r = []
        | Some b \<Rightarrow> downloads r = [(trim (customFilename st) @ ''.jpeg'', b)]
            \<and> (\<not> too_big b (targetBytes (targetSize st)) \<or> n = 17)"
    by blast
  have nth: "toBlobCalls r ! k = (ImageJpeg, Some (quality_arg k))" if "k < Suc n" for k
    using that unfolding nr(3)
    by (simp only: nth_map length_upt diff_zero nth_upt add_0 jpeg_call_def)
  have len: "length (toBlobCalls r) = Suc n" unfolding nr(3) by simp
  show ?thesis
    using nr(1,2,4,5) nth len by (intro exI[of _ n] conjI exI[of _ r]) simp_all
qed

theorem handleDownload_first_fit_witness:
  "format sample_modal = JPEG \<and> isEnabled (targetSize sample_modal)
   \<and> sample_promise () = Inr createCanvas
   \<and> (\<exists>r. handleDownload always_fits sample_promise sample_modal = Some r
         \<and> toBlobCalls r = [(ImageJpeg, Some (quality_arg 0))]
         \<and> downloads r = [(''photo.jpeg'', \<lparr>blob_size = 500, blob_type = ImageJpeg\<rparr>)])"
proof -
  from handleDownload_first_fit[where st = sample_modal and gcp = sample_promise
      and cv = createCanvas and enc = always_fits] sample_hyps
  obtain n r where nr: "handleDownload always_fits sample_promise sample_modal = Some r"
    "length (toBlobCalls r) = Suc n"
    "\<forall>k<n. toBlobCalls r ! k = (ImageJpeg, Some (quality_arg k))
          \<and> (\<exists>b. always_fits createCanvas ImageJpeg (Some (quality_arg k)) = Some b
                \<and> too_big b (targetBytes (targetSize sample_modal)))"
    "toBlobCalls r ! n = (ImageJpeg, Some (quality_arg n))"
    "case always_fits createCanvas ImageJpeg (Some (quality_arg n)) of
          None \<Rightarrow> downloads r = []
        | Some b \<Rightarrow> downloads r = [(trim (customFilename sample_modal) @ ''.jpeg'', b)]
            \<and> (\<not> too_big b (targetBytes (targetSize sample_modal)) \<or> n = 17)"
    by blast
  have n: "n = 0"
  proof (rule ccontr)
    assume "n \<noteq> 0"
    then have "0 < n" by simp
    with nr(3) show False
      by (auto simp: always_fits_def too_big_def sample_target)
  qed
  have "toBlobCalls r = [toBlobCalls r ! 0]"
    using nr(2) n by (cases "toBlobCalls r") simp_all
  with nr n sample_hyps show ?thesis
    by (simp add: always_fits_def sample_modal_def trim_photo)
qed


lemma never_fits_run:
  "map_option toBlobCalls (handleDownload never_fits sample_promise sample_modal)
     = Some (map jpeg_call [0..<18])"
proof -
  from handleDownload_target[where st = sample_modal and gcp = sample_promise
      and cv = createCanvas and enc = never_fits] sample_hyps
  obtain n r where nr: "n \<le> 17" "handleDownload never_fits sample_promise sample_modal = Some r"
    "toBlobCalls r = map jpeg_call [0..<Suc n]"
    "case never_fits createCanvas ImageJpeg (Some (quality_arg n)) of
          None \<Rightarrow> downloads r = []
        | Some b \<Rightarrow> downloads r = [(trim (customFilename sample_modal) @ ''.jpeg'', b)]
            \<and> (\<not> too_big b (targetBytes (targetSize sample_modal)) \<or> n = 17)"
    by blast
  from nr(4) have "n = 17"
    by (simp add: never_fits_def too_big_def sample_target)
  with nr(2,3) show ?thesis by simp
qed

lemma never_fits_bisection:
  "binary_search_probes
     (fits_target never_fits createCanvas (targetBytes (targetSize sample_modal)))
     (rev (map quality_arg [0..<18]))
   = map quality_arg [8, 13, 15, 16, 17]"
  by (simp add: upt_rec fits_target_def never_fits_def too_big_def sample_target Let_def)
     (simp add: eval_nat_numeral)

text \<open>
  Claim C1 as stated fails. With blobs of 2000 bytes at every quality and a target of
  1 KB, the code encodes at all 18 qualities of the descent, in descending order; a
  binary search over the same 18 qualities encodes at five of them, starting in the
  middle.
\<close>

theorem binary_search_counterexample:
  "map_option toBlobCalls (handleDownload never_fits sample_promise sample_modal)
     = Some (map jpeg_call [0..<18])
   \<and> binary_search_probes
       (fits_target never_fits createCanvas (targetBytes (targetSize sample_modal)))
       (rev (map quality_arg [0..<18]))
     = map quality_arg [8, 13, 15, 16, 17]
   \<and> map_option (map snd \<circ> toBlobCalls)
       (handleDownload never_fits sample_promise sample_modal)
     \<noteq> Some (map Some (binary_search_probes
         (fits_target never_fits createCanvas (targetBytes (targetSize sample_modal)))
         (rev (map quality_arg [0..<18]))))"
proof -
  have "length (map snd (map jpeg_call [0..<18])) \<noteq> length (map Some (map quality_arg [8, 13, 15, 16, 17 :: nat]))"
    by simp
  then have "map snd (map jpeg_call [0..<18]) \<noteq> map Some (map quality_arg [8, 13, 15, 16, 17])"
    by (metis (no_types))
  with never_fits_run never_fits_bisection show ?thesis
    by (auto simp: map_option_case split: option.splits)
qed


lemma render_failure:
  assumes "renderImageWithEffectsToCanvas env p s = Inl e"
  shows "e = NonError \<or> e = Error ''Could not get canvas context''"
  using assms
  by (auto simp: renderImageWithEffectsToCanvas_def Let_def split: option.splits if_splits)

text \<open>
  Claim C4. A failed export is handled by the one \<open>try/catch\<close> of \<open>handleDownload\<close>.
  The canvas is rendered once. When rendering fails, no blob is requested, no download is
  triggered, and the message of the error is recorded and shown. When the canvas is
  there, every call of \<open>toBlob\<close> but the last gave a blob, so that a call that fails is
  the last one: nothing is tried again after it, no download is triggered, the message
  is recorded and shown. In every case the processing flag is false at the end.
\<close>

theorem export_failure_single_catch:
  "\<exists>r. panel_download env p st = Some r \<and> \<not> isProcessing (final r) \<and> canvasCalls r = 1
    \<and> (case renderImageWithEffectsToCanvas env p (displayImage p) of
          Inl e \<Rightarrow> toBlobCalls r = [] \<and> downloads r = [] \<and> \<not> closed r
            \<and> downloadError (final r) = Some (error_message e) \<and> error_shown (final r)
        | Inr cv \<Rightarrow> toBlobCalls r \<noteq> []
            \<and> (\<forall>c\<in>set (butlast (toBlobCalls r)). toBlob env cv (fst c) (snd c) \<noteq> None)
            \<and> (case toBlob env cv (fst (last (toBlobCalls r))) (snd (last (toBlobCalls r))) of
                  None \<Rightarrow> downloads r = [] \<and> \<not> closed r
                    \<and> downloadError (final r) = Some
                        ''Canvas to Blob conversion failed. The image may be tainted by cross-origin data.''
                    \<and> error_shown (final r)
                | Some b \<Rightarrow>
                    downloads r = [(trim (customFilename st) @ ''.'' @ lower_format (format st), b)]
                    \<and> closed r \<and> downloadError (final r) = None))"
proof (cases "renderImageWithEffectsToCanvas env p (displayImage p)")
  case (Inl e)
  from render_failure[OF Inl] have "error_message e \<noteq> []"
    by (auto simp: error_message_def)
  with Inl show ?thesis
    by (simp add: panel_download_def handleDownload_def Let_def error_shown_def)
next
  case (Inr cv)
  let ?st = "st\<lparr>isProcessing := True, downloadError := None\<rparr>"
  obtain calls where calls: "calls \<noteq> []"
    "make_blob (toBlob env) cv ?st
      = Some (getBlob (toBlob env) cv (fst (last calls)) (snd (last calls)), calls)"
    "\<forall>c\<in>set (butlast calls). toBlob env cv (fst c) (snd c) \<noteq> None"
    using make_blob_calls[of "toBlob env" cv ?st] by blast
  show ?thesis
  proof (cases "toBlob env cv (fst (last calls)) (snd (last calls))")
    case None
    with Inr calls show ?thesis
      by (simp add: panel_download_def handleDownload_def Let_def getBlob_def
          error_shown_def error_message_def)
  next
    case (Some b)
    with Inr calls show ?thesis
      by (simp add: panel_download_def handleDownload_def Let_def getBlob_def)
  qed
qed

theorem export_failure_single_catch_witness:
  "\<exists>r. panel_download sample_browser sample_panel sample_modal = Some r
    \<and> \<not> isProcessing (final r) \<and> canvasCalls r = 1 \<and> length (toBlobCalls r) = 1
    \<and> downloads r = [] \<and> \<not> closed r \<and> error_shown (final r)
    \<and> downloadError (final r) = Some
        ''Canvas to Blob conversion failed. The image may be tainted by cross-origin data.''"
proof -
  obtain cv where cv: "renderImageWithEffectsToCanvas sample_browser sample_panel
      (displayImage sample_panel) = Inr cv"
    by (simp add: renderImageWithEffectsToCanvas_def sample_browser_def sample_load_def Let_def)
  from export_failure_single_catch[of sample_browser sample_panel sample_modal]
  obtain r where r: "panel_download sample_browser sample_panel sample_modal = Some r"
    "\<not> isProcessing (final r)" "canvasCalls r = 1"
    "case renderImageWithEffectsToCanvas sample_browser sample_panel (displayImage sample_panel) of
          Inl e \<Rightarrow> toBlobCalls r = [] \<and> downloads r = [] \<and> \<not> closed r
            \<and> downloadError (final r) = Some (error_message e) \<and> error_shown (final r)
        | Inr cv \<Rightarrow> toBlobCalls r \<noteq> []
            \<and> (\<forall>c\<in>set (butlast (toBlobCalls r)). toBlob sample_browser cv (fst c) (snd c) \<noteq> None)
            \<and> (case toBlob sample_browser cv (fst (last (toBlobCalls r))) (snd (last (toBlobCalls r))) of
                  None \<Rightarrow> downloads r = [] \<and> \<not> closed r
                    \<and> downloadError (final r) = Some
                        ''Canvas to Blob conversion failed. The image may be tainted by cross-origin data.''
                    \<and> error_shown (final r)
                | Some b \<Rightarrow>
                    downloads r = [(trim (customFilename sample_modal) @ ''.'' @ lower_format (format sample_modal), b)]
                    \<and> closed r \<and> downloadError (final r) = None)"
    by blast
  have tb: "toBlob sample_browser = refusing" by (simp add: sample_browser_def)
  from r(4)[unfolded cv] have "\<forall>c\<in>set (butlast (toBlobCalls r)). False"
    by (simp add: tb refusing_def)
  then have bl: "butlast (toBlobCalls r) = []"
    by (cases "butlast (toBlobCalls r)") auto
  from r(4)[unfolded cv] have f: "toBlobCalls r \<noteq> []"
    "downloads r = []" "\<not> closed r" "error_shown (final r)"
    "downloadError (final r) = Some
        ''Canvas to Blob conversion failed. The image may be tainted by cross-origin data.''"
    by (simp_all add: tb refusing_def)
  from f(1) bl have "length (toBlobCalls r) = 1"
    by (cases "toBlobCalls r") (simp_all split: if_splits)
  with r(1,2,3) f show ?thesis by simp
qed


section \<open>The crop helpers\<close>

lemmas round_small_int = round_double_at[where e = "- 45"] round_double_at[where e = "- 46"]
  round_double_at[where e = "- 47"] round_double_at[where e = "- 48"]
  round_double_at[where e = "- 51"]

lemma dimension_truncates:
  assumes "0 \<le> x" and "x < 2147483648"
  shows "dimension d (Fin x) = nat \<lfloor>x\<rfloor>"
proof -
  have f: "0 \<le> \<lfloor>x\<rfloor>" "\<lfloor>x\<rfloor> < 2147483648"
    using assms by (simp_all add: floor_less_iff)
  then have "\<lfloor>x\<rfloor> mod 4294967296 = \<lfloor>x\<rfloor>" by simp
  moreover from f have "nat \<lfloor>x\<rfloor> \<le> 2147483647" by linarith
  ultimately show ?thesis
    using assms(1) by (simp add: dimension_def to_unsigned_long_def Let_def)
qed

lemma dimension_default:
  assumes "2147483648 \<le> x" and "x < 4294967296"
  shows "dimension d (Fin x) = d"
proof -
  have f: "2147483648 \<le> \<lfloor>x\<rfloor>" "\<lfloor>x\<rfloor> < 4294967296"
    using assms by (simp_all add: floor_less_iff le_floor_iff)
  then have "\<lfloor>x\<rfloor> mod 4294967296 = \<lfloor>x\<rfloor>" by simp
  moreover from f have "\<not> nat \<lfloor>x\<rfloor> \<le> 2147483647" by linarith
  moreover from assms(1) have "0 \<le> x" by simp
  ultimately show ?thesis
    by (simp add: dimension_def to_unsigned_long_def Let_def)
qed

lemma dimension_small_negative:
  assumes "- 1 < x" and "x < 0"
  shows "dimension d (Fin x) = 0"
proof -
  have "\<lceil>x\<rceil> = 0" using assms by (intro ceiling_unique) simp_all
  with assms(2) show ?thesis
    by (simp add: dimension_def to_unsigned_long_def Let_def)
qed

lemma dimension_not_finite:
  "dimension d NaN = 0" "dimension d PosInf = 0" "dimension d NegInf = 0"
  by (simp_all add: dimension_def to_unsigned_long_def)

text \<open>
  Claim C7, as amended. When a 2D context is available, each crop helper returns the PNG
  data URL of a canvas on which one \<open>drawImage\<close> call has painted the region of the source
  image with origin \<open>(crop.x * scaleX, crop.y * scaleY)\<close> and size
  \<open>(crop.width * scaleX, crop.height * scaleY)\<close> onto the rectangle of the crop's width
  and height, \<open>scaleX\<close> and \<open>scaleY\<close> being the ratios of the natural to the displayed
  dimensions. The width and the height of the canvas are integers, the numbers assigned to
  them converted to \<open>unsigned long\<close>: in ImageEditor the crop's width and height, in
  CropModal these multiplied by the device pixel ratio, its context scaled by that ratio
  when it is finite. The conversion truncates a number from 0 to below \<open>2\<^sup>3\<^sup>1\<close>, gives 0
  for a number between -1 and 0, for NaN and for the infinities, and leaves the default
  of the attribute for a number from \<open>2\<^sup>3\<^sup>1\<close> to below \<open>2\<^sup>3\<^sup>2\<close>. Without a context each
  helper rejects with an error.
\<close>

theorem crop_canvas_size:
  "(case croppedCanvas_ImageEditor env img crop of
      Inl e \<Rightarrow> \<not> hasContext env \<and> e = Error ''Canvas context is not available.''
        \<and> getCroppedImg_ImageEditor env img crop = Inl e
    | Inr c \<Rightarrow> hasContext env
        \<and> getCroppedImg_ImageEditor env img crop = Inr (toDataURL env c ImagePng)
        \<and> canvas_width c = dimension 300 (crop_width crop)
        \<and> canvas_height c = dimension 150 (crop_height crop)
        \<and> transform c = (Fin 1, Fin 0, Fin 0, Fin 1, Fin 0, Fin 0)
        \<and> ops c = [DrawImageRegion img
             (js_mul (crop_x crop) (js_div (naturalWidth img) (img_width img)))
             (js_mul (crop_y crop) (js_div (naturalHeight img) (img_height img)))
             (js_mul (crop_width crop) (js_div (naturalWidth img) (img_width img)))
             (js_mul (crop_height crop) (js_div (naturalHeight img) (img_height img)))
             (js_lit 0) (js_lit 0) (crop_width crop) (crop_height crop)])
   \<and> (case croppedCanvas_CropModal env img crop of
      Inl e \<Rightarrow> \<not> hasContext env \<and> e = Error ''Canvas context is not available.''
        \<and> getCroppedImg_CropModal env img crop = Inl e
    | Inr c \<Rightarrow> hasContext env
        \<and> getCroppedImg_CropModal env img crop = Inr (toDataURL env c ImagePng)
        \<and> canvas_width c = dimension 300 (js_mul (crop_width crop) (devicePixelRatio env))
        \<and> canvas_height c = dimension 150 (js_mul (crop_height crop) (devicePixelRatio env))
        \<and> transform c = (case devicePixelRatio env of
             Fin r \<Rightarrow> (Fin r, Fin 0, Fin 0, Fin r, Fin 0, Fin 0)
           | _ \<Rightarrow> (Fin 1, Fin 0, Fin 0, Fin 1, Fin 0, Fin 0))
        \<and> ops c = [DrawImageRegion img
             (js_mul (crop_x crop) (js_div (naturalWidth img) (img_width img)))
             (js_mul (crop_y crop) (js_div (naturalHeight img) (img_height img)))
             (js_mul (crop_width crop) (js_div (naturalWidth img) (img_width img)))
             (js_mul (crop_height crop) (js_div (naturalHeight img) (img_height img)))
             (js_lit 0) (js_lit 0) (crop_width crop) (crop_height crop)])
   \<and> (\<forall>x. 0 \<le> x \<and> x < 2147483648 \<longrightarrow> dimension d (Fin x) = nat \<lfloor>x\<rfloor>)
   \<and> (\<forall>x. - 1 < x \<and> x < 0 \<longrightarrow> dimension d (Fin x) = 0)
   \<and> (\<forall>x. 2147483648 \<le> x \<and> x < 4294967296 \<longrightarrow> dimension d (Fin x) = d)
   \<and> dimension d NaN = 0 \<and> dimension d PosInf = 0 \<and> dimension d NegInf = 0"
proof -
  have zero: "js_lit 0 = Fin 0" by (simp add: js_lit_def round_double_def)
  have editor: "case croppedCanvas_ImageEditor env img crop of
      Inl e \<Rightarrow> \<not> hasContext env \<and> e = Error ''Canvas context is not available.''
        \<and> getCroppedImg_ImageEditor env img crop = Inl e
    | Inr c \<Rightarrow> hasContext env
        \<and> getCroppedImg_ImageEditor env img crop = Inr (toDataURL env c ImagePng)
        \<and> canvas_width c = dimension 300 (crop_width crop)
        \<and> canvas_height c = dimension 150 (crop_height crop)
        \<and> transform c = (Fin 1, Fin 0, Fin 0, Fin 1, Fin 0, Fin 0)
        \<and> ops c = [DrawImageRegion img
             (js_mul (crop_x crop) (js_div (naturalWidth img) (img_width img)))
             (js_mul (crop_y crop) (js_div (naturalHeight img) (img_height img)))
             (js_mul (crop_width crop) (js_div (naturalWidth img) (img_width img)))
             (js_mul (crop_height crop) (js_div (naturalHeight img) (img_height img)))
             (js_lit 0) (js_lit 0) (crop_width crop) (crop_height crop)]"
    by (simp add: croppedCanvas_ImageEditor_def getCroppedImg_ImageEditor_def Let_def
        set_width_def set_height_def createCanvas_def draw_def)
  have modal: "case croppedCanvas_CropModal env img crop of
      Inl e \<Rightarrow> \<not> hasContext env \<and> e = Error ''Canvas context is not available.''
        \<and> getCroppedImg_CropModal env img crop = Inl e
    | Inr c \<Rightarrow> hasContext env
        \<and> getCroppedImg_CropModal env img crop = Inr (toDataURL env c ImagePng)
        \<and> canvas_width c = dimension 300 (js_mul (crop_width crop) (devicePixelRatio env))
        \<and> canvas_height c = dimension 150 (js_mul (crop_height crop) (devicePixelRatio env))
        \<and> transform c = (case devicePixelRatio env of
             Fin r \<Rightarrow> (Fin r, Fin 0, Fin 0, Fin r, Fin 0, Fin 0)
           | _ \<Rightarrow> (Fin 1, Fin 0, Fin 0, Fin 1, Fin 0, Fin 0))
        \<and> ops c = [DrawImageRegion img
             (js_mul (crop_x crop) (js_div (naturalWidth img) (img_width img)))
             (js_mul (crop_y crop) (js_div (naturalHeight img) (img_height img)))
             (js_mul (crop_width crop) (js_div (naturalWidth img) (img_width img)))
             (js_mul (crop_height crop) (js_div (naturalHeight img) (img_height img)))
             (js_lit 0) (js_lit 0) (crop_width crop) (crop_height crop)]"
    by (cases "devicePixelRatio env")
       (simp_all add: croppedCanvas_CropModal_def getCroppedImg_CropModal_def Let_def
        set_width_def set_height_def createCanvas_def draw_def setTransform_def
        is_finite_def zero)
  from editor modal show ?thesis
    by (simp add: dimension_truncates dimension_default dimension_small_negative
        dimension_not_finite)
qed

theorem crop_canvas_size_witness:
  "(0::rat) \<le> 599 / 2 \<and> (599 / 2 :: rat) < 2147483648
   \<and> crop_width fractional_crop = Fin (599 / 2) \<and> crop_height fractional_crop = Fin (337 / 2)
   \<and> map_sum id canvas_width
        (croppedCanvas_ImageEditor sample_browser sample_image fractional_crop) = Inr 299
   \<and> map_sum id canvas_height
        (croppedCanvas_ImageEditor sample_browser sample_image fractional_crop) = Inr 168"
proof -
  obtain c where c: "croppedCanvas_ImageEditor sample_browser sample_image fractional_crop = Inr c"
    by (simp add: croppedCanvas_ImageEditor_def sample_browser_def Let_def)
  from crop_canvas_size[of sample_browser sample_image fractional_crop]
  have size: "canvas_width c = dimension 300 (crop_width fractional_crop)"
    "canvas_height c = dimension 150 (crop_height fractional_crop)"
    and trunc: "\<And>d x. 0 \<le> x \<and> x < 2147483648 \<longrightarrow> dimension d (Fin x) = nat \<lfloor>x\<rfloor>"
    by (simp_all add: c)
  from trunc[of "599 / 2" 300] trunc[of "337 / 2" 150]
  have "dimension 300 (Fin (599 / 2)) = 299" "dimension 150 (Fin (337 / 2)) = 168"
    by (simp_all add: floor_rat_numeral)
  with size c show ?thesis by (simp add: fractional_crop_def)
qed

text \<open>
  Claim C7 as stated fails for CropModal: at a device pixel ratio of 2 a crop of 100 by 50
  gives a canvas of 200 by 100.
\<close>

theorem crop_canvas_size_counterexample:
  "map_sum id canvas_width (croppedCanvas_CropModal sample_browser sample_image sample_crop)
     = Inr 200
   \<and> map_sum id canvas_height (croppedCanvas_CropModal sample_browser sample_image sample_crop)
     = Inr 100
   \<and> crop_width sample_crop = Fin 100 \<and> crop_height sample_crop = Fin 50"
proof -
  have "js_mul (Fin 100) (Fin 2) = Fin 200" "js_mul (Fin 50) (Fin 2) = Fin 100"
    by (simp_all add: round_small_int pow2_def rne_def)
  moreover have "dimension 300 (Fin 200) = 200" "dimension 150 (Fin 100) = 100"
    by (simp_all add: dimension_truncates)
  ultimately show ?thesis
    by (simp add: croppedCanvas_CropModal_def sample_browser_def sample_crop_def Let_def
        set_width_def set_height_def createCanvas_def draw_def setTransform_def)
qed





section \<open>The AI handlers\<close>

lemma render_ignores_flags:
  "renderImageWithEffectsToCanvas env (p\<lparr>retouchError := a, isRetouching := b\<rparr>) s
     = renderImageWithEffectsToCanvas env p s"
  by (simp add: renderImageWithEffectsToCanvas_def getCombinedStyle_def Let_def
      split: option.splits)

lemma generate_single_shot:
  "(case handleGenerate gen g of (g', calls) \<Rightarrow>
      if trim (gen_prompt g) = [] then calls = []
      else calls = [GenerateCall (gen_prompt g) (aspectRatio g)] \<and> \<not> gen_isLoading g'
        \<and> (case gen (gen_prompt g) (aspectRatio g) of
              Inl e \<Rightarrow> gen_error g' = Some (''Generation failed: '' @ unknown_or_message e)
            | Inr d \<Rightarrow> gen_error g' = None \<and> generatedImage g' = Some d))"
  by (simp add: handleGenerate_def Let_def split: sum.splits)

lemma upscale_single_shot:
  "(case handleUpscale ups g of (g', calls) \<Rightarrow>
      (case generatedImage g of
         None \<Rightarrow> calls = []
       | Some img \<Rightarrow>
           if img = [] then calls = []
           else calls = [UpscaleCall img] \<and> \<not> isUpscaling g'
             \<and> (case ups img of
                   Inl e \<Rightarrow> gen_error g' = Some (''Upscaling failed: '' @ unknown_or_message e)
                 | Inr d \<Rightarrow> gen_error g' = None \<and> generatedImage g' = Some d)))"
  by (simp add: handleUpscale_def Let_def split: sum.splits option.splits)

lemma edit_single_shot:
  "(case handleSubmitEdit edit d a of (a', calls) \<Rightarrow>
      if trim (prompt a) = [] then calls = []
      else calls = [EditCall (second (split CHR '','' (base64 d))) (mimeType d) (prompt a)]
        \<and> \<not> isLoading a'
        \<and> (case edit (second (split CHR '','' (base64 d))) (mimeType d) (prompt a) of
              Inl e \<Rightarrow> error a' = Some (''Editing failed: '' @ unknown_or_message e)
                \<and> editingStep a' = editingStep a
            | Inr r \<Rightarrow> error a' = None \<and> editingStep a' = Studio
                \<and> editedImage a' = Some (''data:image/png;base64,'' @ r)))"
  by (simp add: handleSubmitEdit_def Let_def split: sum.splits)

lemma submit_single_shot:
  "(case handleSubmit env edit imgRef completedCrop a of (a', calls) \<Rightarrow>
      (case imgRef of
         None \<Rightarrow> calls = [] \<and> a' = a
       | Some img \<Rightarrow>
           (case completedCrop of
              None \<Rightarrow> calls = [] \<and> a' = a
            | Some crop \<Rightarrow>
                if isLoading a \<or> crop_width crop = Fin 0 then calls = [] \<and> a' = a
                else (case croppedCanvas_ImageEditor env img crop of
                        Inl e \<Rightarrow> calls = [] \<and> a' = a
                      | Inr c \<Rightarrow>
                          (a', calls) = handleSubmitEdit edit
                             \<lparr>base64 = toDataURL env c ImagePng, mimeType = ''image/png''\<rparr> a
                          \<and> calls = (if trim (prompt a) = [] then []
                               else [EditCall (second (split CHR '','' (toDataURL env c ImagePng)))
                                       ''image/png'' (prompt a)])))))"
  by (simp add: handleSubmit_def getCroppedImg_ImageEditor_def handleSubmitEdit_def Let_def
      split: option.splits sum.splits)

lemma retouch_single_shot:
  "(case handleApplyRetouch env edit p of (p', calls) \<Rightarrow>
      if \<not> (enhanceSkin (retouchOptions p) \<or> brightenEyes (retouchOptions p)
            \<or> whitenTeeth (retouchOptions p) \<or> reduceDarkCircles (retouchOptions p))
      then calls = []
      else (case renderImageWithEffectsToCanvas env p (displayImage p) of
              Inl e \<Rightarrow> calls = [] \<and> \<not> isRetouching p'
                \<and> retouchError p' = Some (''Retouch failed: '' @ unknown_or_message e)
            | Inr cv \<Rightarrow> \<not> isRetouching p' \<and> length calls = 1
                \<and> (case hd calls of
                      EditCall b m words \<Rightarrow>
                        b = second (split CHR '','' (toDataURL env cv ImagePng))
                        \<and> m = ''image/png''
                        \<and> (case edit b m words of
                              Inl e \<Rightarrow> retouchError p'
                                  = Some (''Retouch failed: '' @ unknown_or_message e)
                                \<and> displayImage p' = displayImage p
                            | Inr d \<Rightarrow> retouchError p' = None
                                \<and> displayImage p' = ''data:image/png;base64,'' @ d)
                    | _ \<Rightarrow> False)))"
proof -
  define sel where "sel = map fst (filter snd
      [(''enhanceSkin'', enhanceSkin (retouchOptions p)),
       (''brightenEyes'', brightenEyes (retouchOptions p)),
       (''whitenTeeth'', whitenTeeth (retouchOptions p)),
       (''reduceDarkCircles'', reduceDarkCircles (retouchOptions p))])"
  define words where "words = ''Subtly retouch this portrait. Please ''
      @ join '', ''
          ((if enhanceSkin (retouchOptions p)
            then [''perform skin enhancement to smooth texture and reduce blemishes'']
            else [])
           @ (if brightenEyes (retouchOptions p) then [''brighten the eyes''] else [])
           @ (if whitenTeeth (retouchOptions p) then [''whiten the teeth''] else [])
           @ (if reduceDarkCircles (retouchOptions p)
              then [''reduce dark circles under the eyes''] else []))
      @ ''. Maintain a natural look.''"
  define q where "q = p\<lparr>retouchError := None, isRetouching := True\<rparr>"
  have eq: "handleApplyRetouch env edit p =
     (if length sel = 0 then
        (p\<lparr>retouchError := Some ''Please select at least one retouch option.''\<rparr>, [])
      else
        (case renderImageWithEffectsToCanvas env q (displayImage q) of
           Inl e \<Rightarrow> (q\<lparr>retouchError := Some (''Retouch failed: '' @ unknown_or_message e),
                        isRetouching := False\<rparr>, [])
         | Inr canvas \<Rightarrow>
             (case edit (second (split CHR '','' (toDataURL env canvas ImagePng))) ''image/png'' words of
                Inl e \<Rightarrow> (q\<lparr>retouchError := Some (''Retouch failed: '' @ unknown_or_message e),
                             isRetouching := False\<rparr>,
                          [EditCall (second (split CHR '','' (toDataURL env canvas ImagePng)))
                             ''image/png'' words])
              | Inr resultBase64 \<Rightarrow>
                  (q\<lparr>displayImage := ''data:image/png;base64,'' @ resultBase64,
                     isRetouching := False\<rparr>,
                   [EditCall (second (split CHR '','' (toDataURL env canvas ImagePng)))
                      ''image/png'' words]))))"
    unfolding handleApplyRetouch_def Let_def sel_def words_def q_def ..
  have render: "renderImageWithEffectsToCanvas env q (displayImage q)
      = renderImageWithEffectsToCanvas env p (displayImage p)"
    unfolding q_def by (simp add: render_ignores_flags)
  have sel: "(length sel = 0) = (\<not> (enhanceSkin (retouchOptions p) \<or> brightenEyes (retouchOptions p)
      \<or> whitenTeeth (retouchOptions p) \<or> reduceDarkCircles (retouchOptions p)))"
    unfolding sel_def by auto
  have q: "displayImage q = displayImage p" unfolding q_def by simp
  show ?thesis
    unfolding eq render sel
    by (simp add: q_def split: sum.splits)
qed

text \<open>
  Claim C6, as amended. Each of the AI handlers calls the service at most once per user
  action and never a second time. \<open>handleGenerate\<close> and \<open>handleSubmitEdit\<close> make no call
  on a blank prompt, one that holds nothing but white space; \<open>handleUpscale\<close> none
  without a generated image; \<open>handleApplyRetouch\<close> none when no option is selected or
  when the canvas cannot be rendered; otherwise each makes exactly one call. When that
  call fails, the error is surfaced with the prefix \<open>Generation failed:\<close>,
  \<open>Upscaling failed:\<close>, \<open>Editing failed:\<close> or \<open>Retouch failed:\<close> and the loading flag
  is reset; when it succeeds, its result is stored. The button \<open>Apply AI Edit\<close> reaches
  \<open>handleSubmitEdit\<close> through \<open>handleSubmit\<close> of ImageEditor, which returns without a
  call and without a message while a request is loading, without an image element,
  without a completed crop, for a crop of width 0 and when the crop cannot be drawn, and
  otherwise hands the PNG data URL of the cropped canvas to \<open>handleSubmitEdit\<close>.
\<close>

theorem ai_handlers_single_shot:
  "(case handleGenerate gen g of (g', calls) \<Rightarrow>
      if trim (gen_prompt g) = [] then calls = []
      else calls = [GenerateCall (gen_prompt g) (aspectRatio g)] \<and> \<not> gen_isLoading g'
        \<and> (case gen (gen_prompt g) (aspectRatio g) of
              Inl e \<Rightarrow> gen_error g' = Some (''Generation failed: '' @ unknown_or_message e)
            | Inr d \<Rightarrow> gen_error g' = None \<and> generatedImage g' = Some d))
   \<and> (case handleUpscale ups g of (g', calls) \<Rightarrow>
      (case generatedImage g of
         None \<Rightarrow> calls = []
       | Some img \<Rightarrow>
           if img = [] then calls = []
           else calls = [UpscaleCall img] \<and> \<not> isUpscaling g'
             \<and> (case ups img of
                   Inl e \<Rightarrow> gen_error g' = Some (''Upscaling failed: '' @ unknown_or_message e)
                 | Inr d \<Rightarrow> gen_error g' = None \<and> generatedImage g' = Some d)))
   \<and> (case handleSubmitEdit edit d a of (a', calls) \<Rightarrow>
      if trim (prompt a) = [] then calls = []
      else calls = [EditCall (second (split CHR '','' (base64 d))) (mimeType d) (prompt a)]
        \<and> \<not> isLoading a'
        \<and> (case edit (second (split CHR '','' (base64 d))) (mimeType d) (prompt a) of
              Inl e \<Rightarrow> error a' = Some (''Editing failed: '' @ unknown_or_message e)
                \<and> editingStep a' = editingStep a
            | Inr r \<Rightarrow> error a' = None \<and> editingStep a' = Studio
                \<and> editedImage a' = Some (''data:image/png;base64,'' @ r)))
   \<and> (case handleApplyRetouch env edit p of (p', calls) \<Rightarrow>
      if \<not> (enhanceSkin (retouchOptions p) \<or> brightenEyes (retouchOptions p)
            \<or> whitenTeeth (retouchOptions p) \<or> reduceDarkCircles (retouchOptions p))
      then calls = []
      else (case renderImageWithEffectsToCanvas env p (displayImage p) of
              Inl e \<Rightarrow> calls = [] \<and> \<not> isRetouching p'
                \<and> retouchError p' = Some (''Retouch failed: '' @ unknown_or_message e)
            | Inr cv \<Rightarrow> \<not> isRetouching p' \<and> length calls = 1
                \<and> (case hd calls of
                      EditCall b m words \<Rightarrow>
                        b = second (split CHR '','' (toDataURL env cv ImagePng))
                        \<and> m = ''image/png''
                        \<and> (case edit b m words of
                              Inl e \<Rightarrow> retouchError p'
                                  = Some (''Retouch failed: '' @ unknown_or_message e)
                                \<and> displayImage p' = displayImage p
                            | Inr d \<Rightarrow> retouchError p' = None
                                \<and> displayImage p' = ''data:image/png;base64,'' @ d)
                    | _ \<Rightarrow> False)))
   \<and> (case handleSubmit env edit imgRef completedCrop a of (a', calls) \<Rightarrow>
      (case imgRef of
         None \<Rightarrow> calls = [] \<and> a' = a
       | Some img \<Rightarrow>
           (case completedCrop of
              None \<Rightarrow> calls = [] \<and> a' = a
            | Some crop \<Rightarrow>
                if isLoading a \<or> crop_width crop = Fin 0 then calls = [] \<and> a' = a
                else (case croppedCanvas_ImageEditor env img crop of
                        Inl e \<Rightarrow> calls = [] \<and> a' = a
                      | Inr c \<Rightarrow>
                          (a', calls) = handleSubmitEdit edit
                             \<lparr>base64 = toDataURL env c ImagePng, mimeType = ''image/png''\<rparr> a
                          \<and> calls = (if trim (prompt a) = [] then []
                               else [EditCall (second (split CHR '','' (toDataURL env c ImagePng)))
                                       ''image/png'' (prompt a)])))))"
  using generate_single_shot[where gen = gen and g = g]
    upscale_single_shot[where ups = ups and g = g]
    edit_single_shot[where edit = edit and d = d and a = a]
    retouch_single_shot[where env = env and edit = edit and p = p]
    submit_single_shot[where env = env and edit = edit and imgRef = imgRef
      and completedCrop = completedCrop and a = a]
  by (intro conjI)

text \<open>
  Claim C6 as stated fails: a click on \<open>Generate Again\<close> with a blank prompt, here a
  space and an ideographic space, is a user action that issues no call to the service.
\<close>

theorem blank_prompt_counterexample:
  "snd (handleGenerate sample_generate blank_generator) = []
   \<and> gen_error (fst (handleGenerate sample_generate blank_generator))
       = Some ''Please enter a prompt to generate an image.''"
proof -
  have "trim (gen_prompt blank_generator) = []"
    by (simp add: blank_generator_def trim_def strip_leading.simps space_codes_def)
  then show ?thesis by (simp add: handleGenerate_def)
qed


section \<open>The flow of App\<close>

lemma step_edge:
  "editingStep (step e a) = editingStep a
   \<or> (editingStep a, editingStep (step e a))
       \<in> {(Upload, Choice), (Choice, AiEdit), (Choice, Studio), (AiEdit, Studio),
           (Upload, Generation), (Generation, Studio), (Generation, Upload),
           (AiEdit, Choice), (Choice, Upload), (AiEdit, Upload), (Studio, Upload)}"
  by (cases "renderContent a"; cases e; cases "editingStep a")
     (auto simp: step_def renderContent_def handleImageUpload_def
        handleSubmitEdit_def handleImageGenerated_def handleReset_def Let_def
        split: if_splits sum.splits)

lemma step_keeps_image:
  assumes "editingStep a \<in> {Choice, AiEdit, Studio} \<longrightarrow> originalImage a \<noteq> None"
  shows "editingStep (step e a) \<in> {Choice, AiEdit, Studio} \<longrightarrow> originalImage (step e a) \<noteq> None"
  using assms
  by (cases "renderContent a"; cases e; cases "editingStep a")
     (auto simp: step_def renderContent_def handleImageUpload_def
        handleSubmitEdit_def handleImageGenerated_def handleReset_def Let_def
        split: if_splits sum.splits)

lemma run_keeps_image:
  assumes "editingStep a \<in> {Choice, AiEdit, Studio} \<longrightarrow> originalImage a \<noteq> None"
  shows "editingStep (run es a) \<in> {Choice, AiEdit, Studio} \<longrightarrow> originalImage (run es a) \<noteq> None"
  using assms
proof (induction es arbitrary: a)
  case Nil
  then show ?case by (simp add: run_def)
next
  case (Cons e es)
  have "run (e # es) a = run es (step e a)" by (simp add: run_def)
  with Cons.IH[OF step_keeps_image[OF Cons.prems]] show ?case by simp
qed

lemma render_of_step:
  assumes "editingStep a \<in> {Choice, AiEdit, Studio} \<longrightarrow> originalImage a \<noteq> None"
  shows "renderContent a = (case editingStep a of
          Upload \<Rightarrow> ImageUploader | Generation \<Rightarrow> ImageGenerator | Choice \<Rightarrow> EditorChoice
        | AiEdit \<Rightarrow> ImageEditor | Studio \<Rightarrow> ResultDisplay)"
  using assms by (cases "editingStep a") (auto simp: renderContent_def)

lemma edges_taken:
  "map (\<lambda>(es, e). (editingStep (run es initialApp),
                     editingStep (step e (run es initialApp))))
       [([], sample_upload),
        ([sample_upload], ChooseAiEdit),
        ([sample_upload], ChooseManualEdit),
        ([sample_upload, ChooseAiEdit, SetPrompt ''add a hat''], sample_submit),
        ([], StartGeneration),
        ([StartGeneration], ImageGenerated ''AAAA''),
        ([StartGeneration], GeneratorBack),
        ([sample_upload, ChooseAiEdit], EditorBack),
        ([sample_upload], Reset),
        ([sample_upload, ChooseAiEdit], Reset),
        ([sample_upload, ChooseManualEdit], Reset)]
     = [(Upload, Choice), (Choice, AiEdit), (Choice, Studio), (AiEdit, Studio),
        (Upload, Generation), (Generation, Studio), (Generation, Upload),
        (AiEdit, Choice), (Choice, Upload), (AiEdit, Upload), (Studio, Upload)]"
  by (simp add: run_def step_def renderContent_def initialApp_def sample_upload_def
      sample_submit_def handleImageUpload_def handleSubmitEdit_def handleImageGenerated_def
      handleReset_def Let_def trim_hat)

lemma rendered_has_image:
  "renderContent a \<in> {EditorChoice, ImageEditor, ResultDisplay} \<Longrightarrow> originalImage a \<noteq> None"
  by (cases "editingStep a") (auto simp: renderContent_def split: if_splits)

text \<open>
  Claim C3, as amended. The flow is driven by the one variable \<open>editingStep\<close>, which
  ranges over the five steps upload, choice, ai-edit, studio and generation. Every event
  leaves the step as it is or follows one of eleven edges: the flow
  upload \<open>\<rightarrow>\<close> choice \<open>\<rightarrow>\<close> ai-edit \<open>\<rightarrow>\<close> studio, choice \<open>\<rightarrow>\<close> studio,
  upload \<open>\<rightarrow>\<close> generation \<open>\<rightarrow>\<close> studio, and the ways back generation \<open>\<rightarrow>\<close> upload,
  ai-edit \<open>\<rightarrow>\<close> choice and the reset to upload from choice, ai-edit and studio. Each of
  the eleven edges is taken by an event of the component rendered at its source, and each
  is taken in a run from the initial state. In every state reached from the initial one,
  what is rendered is the component of the current step, the result display being the
  component of studio. A successful upload leads to choice, the two choices to ai-edit and
  to studio, and a successful edit to studio and its result display.
\<close>

theorem editing_flow:
  "(editingStep (step e a) = editingStep a
      \<or> (editingStep a, editingStep (step e a))
          \<in> {(Upload, Choice), (Choice, AiEdit), (Choice, Studio), (AiEdit, Studio),
           (Upload, Generation), (Generation, Studio), (Generation, Upload),
           (AiEdit, Choice), (Choice, Upload), (AiEdit, Upload), (Studio, Upload)})
   \<and> renderContent (run es initialApp)
       = (case editingStep (run es initialApp) of
          Upload \<Rightarrow> ImageUploader | Generation \<Rightarrow> ImageGenerator | Choice \<Rightarrow> EditorChoice
        | AiEdit \<Rightarrow> ImageEditor | Studio \<Rightarrow> ResultDisplay)
   \<and> (renderContent a = ImageUploader \<longrightarrow>
        editingStep a = Upload
        \<and> editingStep (step (UploadImage f (Inr d)) a) = Choice
        \<and> editingStep (step StartGeneration a) = Generation)
   \<and> (renderContent a = ImageGenerator \<longrightarrow>
        editingStep a = Generation
        \<and> editingStep (step (ImageGenerated g) a) = Studio
        \<and> editingStep (step GeneratorBack a) = Upload)
   \<and> (renderContent a = EditorChoice \<longrightarrow>
        editingStep a = Choice
        \<and> editingStep (step ChooseAiEdit a) = AiEdit
        \<and> editingStep (step ChooseManualEdit a) = Studio
        \<and> editingStep (step Reset a) = Upload)
   \<and> (renderContent a = ImageEditor \<longrightarrow>
        editingStep a = AiEdit
        \<and> editingStep (step EditorBack a) = Choice
        \<and> editingStep (step Reset a) = Upload)
   \<and> (renderContent a = ImageEditor \<and> trim (prompt a) \<noteq> [] \<longrightarrow>
        editingStep (step (SubmitEdit i (Inr r)) a) = Studio
        \<and> renderContent (step (SubmitEdit i (Inr r)) a) = ResultDisplay)
   \<and> (renderContent a = ResultDisplay \<longrightarrow>
        editingStep a = Studio
        \<and> editingStep (step Reset a) = Upload)
   \<and> map (\<lambda>(es, e). (editingStep (run es initialApp),
                     editingStep (step e (run es initialApp))))
       [([], sample_upload),
        ([sample_upload], ChooseAiEdit),
        ([sample_upload], ChooseManualEdit),
        ([sample_upload, ChooseAiEdit, SetPrompt ''add a hat''], sample_submit),
        ([], StartGeneration),
        ([StartGeneration], ImageGenerated ''AAAA''),
        ([StartGeneration], GeneratorBack),
        ([sample_upload, ChooseAiEdit], EditorBack),
        ([sample_upload], Reset),
        ([sample_upload, ChooseAiEdit], Reset),
        ([sample_upload, ChooseManualEdit], Reset)]
     = [(Upload, Choice), (Choice, AiEdit), (Choice, Studio), (AiEdit, Studio),
        (Upload, Generation), (Generation, Studio), (Generation, Upload),
        (AiEdit, Choice), (Choice, Upload), (AiEdit, Upload), (Studio, Upload)]"
proof (intro conjI impI)
  show "editingStep (step e a) = editingStep a
      \<or> (editingStep a, editingStep (step e a))
          \<in> {(Upload, Choice), (Choice, AiEdit), (Choice, Studio), (AiEdit, Studio),
           (Upload, Generation), (Generation, Studio), (Generation, Upload),
           (AiEdit, Choice), (Choice, Upload), (AiEdit, Upload), (Studio, Upload)}"
    by (rule step_edge)
  have "editingStep (run es initialApp) \<in> {Choice, AiEdit, Studio}
      \<longrightarrow> originalImage (run es initialApp) \<noteq> None"
    by (rule run_keeps_image) (simp add: initialApp_def)
  then show "renderContent (run es initialApp)
       = (case editingStep (run es initialApp) of
          Upload \<Rightarrow> ImageUploader | Generation \<Rightarrow> ImageGenerator | Choice \<Rightarrow> EditorChoice
        | AiEdit \<Rightarrow> ImageEditor | Studio \<Rightarrow> ResultDisplay)"
    by (rule render_of_step)
  show "map (\<lambda>(es, e). (editingStep (run es initialApp),
                     editingStep (step e (run es initialApp))))
       [([], sample_upload),
        ([sample_upload], ChooseAiEdit),
        ([sample_upload], ChooseManualEdit),
        ([sample_upload, ChooseAiEdit, SetPrompt ''add a hat''], sample_submit),
        ([], StartGeneration),
        ([StartGeneration], ImageGenerated ''AAAA''),
        ([StartGeneration], GeneratorBack),
        ([sample_upload, ChooseAiEdit], EditorBack),
        ([sample_upload], Reset),
        ([sample_upload, ChooseAiEdit], Reset),
        ([sample_upload, ChooseManualEdit], Reset)]
     = [(Upload, Choice), (Choice, AiEdit), (Choice, Studio), (AiEdit, Studio),
        (Upload, Generation), (Generation, Studio), (Generation, Upload),
        (AiEdit, Choice), (Choice, Upload), (AiEdit, Upload), (Studio, Upload)]"
    by (rule edges_taken)
next
  assume h: "renderContent a = ImageUploader"
  then show "editingStep a = Upload"
    by (cases "editingStep a") (auto simp: renderContent_def split: if_splits)
  from h show "editingStep (step (UploadImage f (Inr d)) a) = Choice"
    and "editingStep (step StartGeneration a) = Generation"
    by (simp_all add: step_def handleImageUpload_def Let_def)
next
  assume h: "renderContent a = ImageGenerator"
  then show "editingStep a = Generation"
    by (cases "editingStep a") (auto simp: renderContent_def split: if_splits)
  from h show "editingStep (step (ImageGenerated g) a) = Studio"
    and "editingStep (step GeneratorBack a) = Upload"
    by (simp_all add: step_def handleImageGenerated_def)
next
  assume h: "renderContent a = EditorChoice"
  then show "editingStep a = Choice"
    by (cases "editingStep a") (auto simp: renderContent_def split: if_splits)
  from h show "editingStep (step ChooseAiEdit a) = AiEdit"
    and "editingStep (step ChooseManualEdit a) = Studio"
    and "editingStep (step Reset a) = Upload"
    by (simp_all add: step_def handleReset_def)
next
  assume h: "renderContent a = ImageEditor"
  then show "editingStep a = AiEdit"
    by (cases "editingStep a") (auto simp: renderContent_def split: if_splits)
  from h show "editingStep (step EditorBack a) = Choice"
    and "editingStep (step Reset a) = Upload"
    by (simp_all add: step_def handleReset_def)
next
  assume h: "renderContent a = ImageEditor \<and> trim (prompt a) \<noteq> []"
  then have "originalImage a \<noteq> None"
    by (intro rendered_has_image) simp
  with h show "editingStep (step (SubmitEdit i (Inr r)) a) = Studio"
    and "renderContent (step (SubmitEdit i (Inr r)) a) = ResultDisplay"
    by (simp_all add: step_def handleSubmitEdit_def Let_def renderContent_def)
next
  assume h: "renderContent a = ResultDisplay"
  then show "editingStep a = Studio"
    by (cases "editingStep a") (auto simp: renderContent_def split: if_splits)
  from h show "editingStep (step Reset a) = Upload"
    by (simp add: step_def handleReset_def)
qed

theorem editing_flow_witness:
  "renderContent initialApp = ImageUploader
   \<and> editingStep (step sample_upload initialApp) = Choice
   \<and> editingStep (step StartGeneration initialApp) = Generation
   \<and> renderContent (run [StartGeneration] initialApp) = ImageGenerator
   \<and> editingStep (step (ImageGenerated ''AAAA'') (run [StartGeneration] initialApp)) = Studio
   \<and> editingStep (step GeneratorBack (run [StartGeneration] initialApp)) = Upload
   \<and> renderContent (run [sample_upload] initialApp) = EditorChoice
   \<and> editingStep (step ChooseAiEdit (run [sample_upload] initialApp)) = AiEdit
   \<and> editingStep (step ChooseManualEdit (run [sample_upload] initialApp)) = Studio
   \<and> editingStep (step Reset (run [sample_upload] initialApp)) = Upload
   \<and> renderContent (run [sample_upload, ChooseAiEdit, SetPrompt ''add a hat''] initialApp)
       = ImageEditor
   \<and> trim (prompt (run [sample_upload, ChooseAiEdit, SetPrompt ''add a hat''] initialApp)) \<noteq> []
   \<and> editingStep (step EditorBack
        (run [sample_upload, ChooseAiEdit, SetPrompt ''add a hat''] initialApp)) = Choice
   \<and> editingStep (step Reset
        (run [sample_upload, ChooseAiEdit, SetPrompt ''add a hat''] initialApp)) = Upload
   \<and> editingStep (step sample_submit
        (run [sample_upload, ChooseAiEdit, SetPrompt ''add a hat''] initialApp)) = Studio
   \<and> renderContent (run [sample_upload, ChooseManualEdit] initialApp) = ResultDisplay
   \<and> editingStep (step Reset (run [sample_upload, ChooseManualEdit] initialApp)) = Upload"
proof -
  let ?u = "initialApp"
  let ?g = "run [StartGeneration] initialApp"
  let ?c = "run [sample_upload] initialApp"
  let ?e = "run [sample_upload, ChooseAiEdit, SetPrompt ''add a hat''] initialApp"
  let ?s = "run [sample_upload, ChooseManualEdit] initialApp"
  have views: "renderContent ?u = ImageUploader" "renderContent ?g = ImageGenerator"
    "renderContent ?c = EditorChoice" "renderContent ?e = ImageEditor"
    "renderContent ?s = ResultDisplay"
    by (simp_all add: run_def step_def renderContent_def initialApp_def sample_upload_def
        handleImageUpload_def Let_def)
  have words: "trim (prompt ?e) \<noteq> []"
    by (simp add: run_def step_def renderContent_def initialApp_def sample_upload_def
        handleImageUpload_def Let_def trim_hat)
  note flow = editing_flow[where f = sample_file and d = "''data:image/png;base64,AAAA''"
      and g = "''AAAA''" and r = "''BBBB''"
      and i = "\<lparr>base64 = ''data:image/png;base64,AAAA'', mimeType = ''image/png''\<rparr>"]
  from flow[where a = ?u] views(1)
  have 1: "editingStep (step sample_upload ?u) = Choice"
    "editingStep (step StartGeneration ?u) = Generation"
    unfolding sample_upload_def by blast+
  from flow[where a = ?g] views(2)
  have 2: "editingStep (step (ImageGenerated ''AAAA'') ?g) = Studio"
    "editingStep (step GeneratorBack ?g) = Upload"
    by blast+
  from flow[where a = ?c] views(3)
  have 3: "editingStep (step ChooseAiEdit ?c) = AiEdit"
    "editingStep (step ChooseManualEdit ?c) = Studio"
    "editingStep (step Reset ?c) = Upload"
    by blast+
  from flow[where a = ?e] views(4) words
  have 4: "editingStep (step EditorBack ?e) = Choice"
    "editingStep (step Reset ?e) = Upload"
    "editingStep (step sample_submit ?e) = Studio"
    unfolding sample_submit_def by blast+
  from flow[where a = ?s] views(5)
  have 5: "editingStep (step Reset ?s) = Upload"
    by blast
  from views words 1 2 3 4 5 show ?thesis by (intro conjI)
qed

text \<open>
  Claim C3 as stated fails: from upload the event \<open>onStartGeneration\<close> leads to the step
  generation, which is not among the steps the description names, and from there to
  studio without passing choice; no step is named result.
\<close>

theorem generation_step_counterexample:
  "step_name (editingStep (step StartGeneration initialApp)) = ''generation''
   \<and> step_name (editingStep (step StartGeneration initialApp)) \<notin> set described_steps
   \<and> ''result'' \<notin> set (map step_name [Upload, Choice, AiEdit, Studio, Generation])
   \<and> map editingStep
        [run [StartGeneration] initialApp,
         run [StartGeneration, ImageGenerated ''AAAA''] initialApp]
       = [Generation, Studio]"
  by (simp add: run_def step_def renderContent_def initialApp_def step_name_def
      described_steps_def handleImageGenerated_def)


end
